theory Spec2Isabelle
  imports Complex_Main "HOL-Library.Multiset"
begin

section \<open>Numbers\<close>

text \<open>
  The program computes with JavaScript numbers, which are IEEE doubles. A number is
  modelled as a real, and \<open>fl\<close> below is the rounding of the exact result of an
  operation to the nearest double, a tie to the double with an even significand: 53
  bits of significand, and below \<open>2 powr (- 1022)\<close> the fixed spacing of the subnormal
  doubles. Numbers beyond the range of the doubles (overflow to \<open>Infinity\<close>) are
  outside the model.

  The rounding is written out where the arithmetic is \<open>+\<close>, \<open>-\<close>, \<open>*\<close> and \<open>/\<close> on
  literals and inputs: in the strike ladder and in the expressions
  \<open>c + Math.random() * w\<close> of the synthesizer. The pricing model computes with
  \<open>Math.log\<close>, \<open>Math.exp\<close> and \<open>Math.sqrt\<close>, whose rounding the language leaves to the
  implementation; it is modelled over the reals, and so is what the synthesizer derives
  from its prices. Its statements are for arguments where the formula is defined over
  the reals (spot, strike and volatility above 0 on the Black-Scholes path).

  The two values of the program that are not numbers, \<open>undefined\<close> and \<open>NaN\<close>, are
  modelled as \<open>None\<close> where the program can produce them (section on the synthesizer).

  \<open>Math.round\<close> rounds to the nearest integer, a tie towards plus infinity.
\<close>

definition Math_round :: "real \<Rightarrow> int" where
  "Math_round x = \<lfloor>x + 1 / 2\<rfloor>"

definition roundHalfEven :: "real \<Rightarrow> int" where
  "roundHalfEven q =
     (let n = \<lfloor>q\<rfloor>; f = q - real_of_int n
      in if f < 1 / 2 then n else if f > 1 / 2 then n + 1 else if even n then n else n + 1)"

definition fl :: "real \<Rightarrow> real" where
  "fl x =
     (if x = 0 then 0
      else (let e = max (\<lfloor>log 2 \<bar>x\<bar>\<rfloor> - 52) (- 1074);
                u = 2 powr real_of_int e
            in real_of_int (roundHalfEven (x / u)) * u))"

text \<open>
  \<open>c + Math.random() * w\<close> in doubles, for literals \<open>c\<close> and \<open>w\<close> and the value \<open>u\<close> of
  \<open>Math.random()\<close>: a literal is the double nearest to it.
\<close>

definition jitter :: "real \<Rightarrow> real \<Rightarrow> real \<Rightarrow> real" where
  "jitter c u w = fl (fl c + fl (u * fl w))"

section \<open>Pricing model\<close>

record Greeks =
  delta :: real
  gamma :: real
  theta :: real
  vega :: real

record PricingQuote =
  price :: real
  greeks :: Greeks

text \<open>The error function approximation \<open>erf\<close> of the source, constant by constant.\<close>

definition erf :: "real \<Rightarrow> real" where
  "erf x0 =
     (let a1 = 0.254829592;
          a2 = - 0.284496736;
          a3 = 1.421413741;
          a4 = - 1.453152027;
          a5 = 1.061405429;
          p = 0.3275911;
          sign = (if x0 \<ge> 0 then 1 else - 1);
          x = \<bar>x0\<bar>;
          t = 1 / (1 + p * x);
          y = 1 - (((((a5 * t + a4) * t) + a3) * t + a2) * t + a1) * t * exp (- x * x)
      in sign * y)"

text \<open>The local function \<open>cdf\<close> of \<open>calculateOptionPrice\<close>.\<close>

definition cdf :: "real \<Rightarrow> real" where
  "cdf x = 0.5 * (1 + erf (x / sqrt 2))"

text \<open>
  The local values of \<open>calculateOptionPrice\<close> on its Black-Scholes path, each under the
  name the source gives it. \<open>T\<close> is the time in years, \<open>timeToExpiry / 365\<close>.
\<close>

definition bs_d1 :: "real \<Rightarrow> real \<Rightarrow> real \<Rightarrow> real \<Rightarrow> real \<Rightarrow> real" where
  "bs_d1 S K T r \<sigma> = (ln (S / K) + (r + 0.5 * \<sigma> * \<sigma>) * T) / (\<sigma> * sqrt T)"

definition bs_d2 :: "real \<Rightarrow> real \<Rightarrow> real \<Rightarrow> real \<Rightarrow> real \<Rightarrow> real" where
  "bs_d2 S K T r \<sigma> = bs_d1 S K T r \<sigma> - \<sigma> * sqrt T"

definition bs_nd1 :: "real \<Rightarrow> real \<Rightarrow> real \<Rightarrow> real \<Rightarrow> real \<Rightarrow> real" where
  "bs_nd1 S K T r \<sigma> =
     exp (- 0.5 * bs_d1 S K T r \<sigma> * bs_d1 S K T r \<sigma>) / sqrt (2 * pi)"

text \<open>The value \<open>price\<close> before the market adjustment is applied.\<close>

definition bs_price :: "real \<Rightarrow> real \<Rightarrow> real \<Rightarrow> real \<Rightarrow> real \<Rightarrow> bool \<Rightarrow> real" where
  "bs_price S K T r \<sigma> isCall =
     (if isCall
      then S * cdf (bs_d1 S K T r \<sigma>) - K * exp (- r * T) * cdf (bs_d2 S K T r \<sigma>)
      else K * exp (- r * T) * cdf (- bs_d2 S K T r \<sigma>) - S * cdf (- bs_d1 S K T r \<sigma>))"

definition bs_delta :: "real \<Rightarrow> real \<Rightarrow> real \<Rightarrow> real \<Rightarrow> real \<Rightarrow> bool \<Rightarrow> real" where
  "bs_delta S K T r \<sigma> isCall =
     (if isCall then cdf (bs_d1 S K T r \<sigma>) else cdf (bs_d1 S K T r \<sigma>) - 1)"

definition bs_gamma :: "real \<Rightarrow> real \<Rightarrow> real \<Rightarrow> real \<Rightarrow> real \<Rightarrow> real" where
  "bs_gamma S K T r \<sigma> = bs_nd1 S K T r \<sigma> / (S * \<sigma> * sqrt T)"

definition bs_theta :: "real \<Rightarrow> real \<Rightarrow> real \<Rightarrow> real \<Rightarrow> real \<Rightarrow> bool \<Rightarrow> real" where
  "bs_theta S K T r \<sigma> isCall =
     - (S * bs_nd1 S K T r \<sigma> * \<sigma>) / (2 * sqrt T)
     - r * K * exp (- r * T)
         * (if isCall then cdf (bs_d2 S K T r \<sigma>) else cdf (- bs_d2 S K T r \<sigma>))"

definition bs_vega :: "real \<Rightarrow> real \<Rightarrow> real \<Rightarrow> real \<Rightarrow> real \<Rightarrow> real" where
  "bs_vega S K T r \<sigma> = S * bs_nd1 S K T r \<sigma> * sqrt T / 100"

text \<open>
  \<open>calculateOptionPrice\<close>. The last argument \<open>u\<close> is the value \<open>Math.random()\<close> returns
  for \<open>marketAdjustment\<close>, a number of the interval from 0 (included) to 1 (excluded).
  The source also computes \<open>bidAskSpread\<close> and never reads it.
\<close>

definition calculateOptionPrice ::
  "real \<Rightarrow> real \<Rightarrow> real \<Rightarrow> real \<Rightarrow> real \<Rightarrow> bool \<Rightarrow> real \<Rightarrow> PricingQuote" where
  "calculateOptionPrice currentPrice strike timeToExpiry volatility riskFreeRate isCall u =
     (let S = currentPrice;
          K = strike;
          T = timeToExpiry / 365;
          r = riskFreeRate;
          \<sigma> = volatility
      in if T \<le> 0
         then (let intrinsic = (if isCall then max (S - K) 0 else max (K - S) 0)
               in \<lparr>price = intrinsic,
                   greeks = \<lparr>delta = (if isCall then (if S > K then 1 else 0)
                                      else (if S < K then - 1 else 0)),
                             gamma = 0, theta = 0, vega = 0\<rparr>\<rparr>)
         else (let marketAdjustment = 1 + (u - 0.5) * 0.1;
                   adjustedPrice = bs_price S K T r \<sigma> isCall * marketAdjustment
               in \<lparr>price = max adjustedPrice 0.05,
                   greeks =
                     \<lparr>delta = real_of_int (Math_round (bs_delta S K T r \<sigma> isCall * 100)) / 100,
                      gamma = real_of_int (Math_round (bs_gamma S K T r \<sigma> * 1000)) / 1000,
                      theta = real_of_int (Math_round (bs_theta S K T r \<sigma> isCall * 100)) / 100 / 365,
                      vega = real_of_int (Math_round (bs_vega S K T r \<sigma> * 100)) / 100\<rparr>\<rparr>))"


section \<open>Arrays\<close>

text \<open>
  \<open>Array.prototype.sort\<close> with a comparator: the sort is stable, and an element \<open>a\<close>
  goes before \<open>b\<close> when the comparator is negative. For a comparator that is a total
  preorder the result does not depend on the engine's algorithm; it is computed here by
  insertion from the right, which keeps equal elements in their order.
\<close>

fun insert_cmp :: "('a \<Rightarrow> 'a \<Rightarrow> real) \<Rightarrow> 'a \<Rightarrow> 'a list \<Rightarrow> 'a list" where
  "insert_cmp cmp x [] = [x]"
| "insert_cmp cmp x (y # ys) =
     (if cmp x y \<le> 0 then x # y # ys else y # insert_cmp cmp x ys)"

definition Array_sort :: "('a \<Rightarrow> 'a \<Rightarrow> real) \<Rightarrow> 'a list \<Rightarrow> 'a list" where
  "Array_sort cmp xs = foldr (insert_cmp cmp) xs []"

text \<open>
  \<open>xs.slice(0, e)\<close> for an integer \<open>e\<close>: a negative \<open>e\<close> counts from the end of the
  array, and the bounds are clamped to the array.
\<close>

definition Array_slice0 :: "'a list \<Rightarrow> int \<Rightarrow> 'a list" where
  "Array_slice0 xs e =
     (if e < 0 then take (nat (int (length xs) + e)) xs else take (nat e) xs)"

text \<open>\<open>xs[i]\<close>: \<open>undefined\<close> (here \<open>None\<close>) out of range.\<close>

definition at_index :: "'a list \<Rightarrow> nat \<Rightarrow> 'a option" where
  "at_index xs i = (if i < length xs then Some (xs ! i) else None)"

section \<open>Strike ladder\<close>

text \<open>The local \<open>interval\<close> of \<open>generateStrikes\<close>.\<close>

definition strike_interval :: "real \<Rightarrow> real" where
  "strike_interval currentPrice =
     (if currentPrice < 50 then 2.5
      else if currentPrice < 100 then 5
      else if currentPrice < 200 then 5
      else if currentPrice < 500 then 10
      else 25)"

text \<open>
  \<open>generateStrikes\<close>, every arithmetic result rounded to a double. The comparator of the
  sort is the difference of two doubles; rounding it does not change its sign, and it is
  left exact.
\<close>

definition generateStrikes :: "real \<Rightarrow> real list" where
  "generateStrikes currentPrice =
     (let interval = strike_interval currentPrice;
          baseStrike = fl (real_of_int (Math_round (fl (currentPrice / interval))) * interval);
          strikes = filter (\<lambda>strike. strike > 0)
                      (map (\<lambda>i. fl (baseStrike + fl (real_of_int i * interval))) [- 6 .. 6])
      in Array_sort (\<lambda>a b. a - b) strikes)"

section \<open>Expiration calendar\<close>

text \<open>
  An instant is the number of milliseconds since 1970-01-01T00:00Z, as \<open>getTime()\<close>
  gives it. The methods \<open>getDate\<close>, \<open>setDate\<close>, \<open>getDay\<close>, \<open>getFullYear\<close>, \<open>getMonth\<close>
  and the constructor \<open>new Date(y, m, d)\<close> work in the local time of the process, while
  \<open>toISOString\<close> and the parsing of a date-only string work in UTC. The local time zone
  is a parameter \<open>tz\<close>: local time is UTC plus \<open>tz\<close> milliseconds (a zone with a fixed
  offset; \<open>tz = 0\<close> is UTC). A zone with daylight saving, where a local day can
  have 23 or 25 hours, is outside the model. A calendar date is the number of days since 1970-01-01;
  the text \<open>YYYY-MM-DD\<close> that \<open>toISOString().split('T')[0]\<close> gives stands for the day
  number of that date.
\<close>

definition msPerDay :: int where
  "msPerDay = 1000 * 60 * 60 * 24"

definition localDay :: "int \<Rightarrow> int \<Rightarrow> int" where
  "localDay tz t = (t + tz) div msPerDay"

text \<open>\<open>getDay()\<close>: 0 is Sunday, 5 is Friday; 1970-01-01 was a Thursday.\<close>

definition weekday :: "int \<Rightarrow> int" where
  "weekday day = (day + 4) mod 7"

definition getDay :: "int \<Rightarrow> int \<Rightarrow> int" where
  "getDay tz t = weekday (localDay tz t)"

text \<open>The date part of \<open>toISOString()\<close>, and the instant \<open>new Date('YYYY-MM-DD')\<close>.\<close>

definition isoDate :: "int \<Rightarrow> int" where
  "isoDate t = t div msPerDay"

definition parseDate :: "int \<Rightarrow> int" where
  "parseDate day = day * msPerDay"

text \<open>
  The proleptic Gregorian calendar: the year, month (1 to 12) and day of a day number,
  and the day number of a year, month and day.
\<close>

definition civil_from_days :: "int \<Rightarrow> int \<times> int \<times> int" where
  "civil_from_days z0 =
     (let z = z0 + 719468;
          era = z div 146097;
          doe = z mod 146097;
          yoe = (doe - doe div 1460 + doe div 36524 - doe div 146096) div 365;
          doy = doe - (365 * yoe + yoe div 4 - yoe div 100);
          mp = (5 * doy + 2) div 153;
          d = doy - (153 * mp + 2) div 5 + 1;
          m = (if mp < 10 then mp + 3 else mp - 9);
          y = yoe + era * 400 + (if m \<le> 2 then 1 else 0)
      in (y, m, d))"

definition days_from_civil :: "int \<Rightarrow> int \<Rightarrow> int \<Rightarrow> int" where
  "days_from_civil y0 m d =
     (let y = (if m \<le> 2 then y0 - 1 else y0);
          era = y div 400;
          yoe = y mod 400;
          doy = (153 * (if m > 2 then m - 3 else m + 9) + 2) div 5 + d - 1;
          doe = yoe * 365 + yoe div 4 - yoe div 100 + doy
      in era * 146097 + doe - 719468)"

text \<open>
  The loop \<open>while (expDate.getDay() !== 5) expDate.setDate(expDate.getDate() + 1)\<close>.
\<close>

function nextFriday :: "int \<Rightarrow> int \<Rightarrow> int" where
  "nextFriday tz t = (if getDay tz t = 5 then t else nextFriday tz (t + msPerDay))"
  by pat_completeness auto
termination
proof (relation "measure (\<lambda>(tz, t). nat ((5 - getDay tz t) mod 7))")
  show "wf (measure (\<lambda>(tz, t). nat ((5 - getDay tz t) mod 7)))" by simp
next
  fix tz t :: int
  assume "getDay tz t \<noteq> 5"
  moreover have "localDay tz (t + msPerDay) = localDay tz t + 1"
    by (simp add: localDay_def msPerDay_def add.assoc add.left_commute)
  ultimately show "((tz, t + msPerDay), (tz, t))
      \<in> measure (\<lambda>(tz, t). nat ((5 - getDay tz t) mod 7))"
    unfolding getDay_def weekday_def by simp presburger
qed

declare nextFriday.simps [simp del]

text \<open>The candidate of the first loop for \<open>weeks\<close>, and of the second for \<open>months\<close>.\<close>

definition weeklyCandidate :: "int \<Rightarrow> int \<Rightarrow> int \<Rightarrow> int" where
  "weeklyCandidate tz today weeks = nextFriday tz (today + weeks * 7 * msPerDay)"

definition monthlyCandidate :: "int \<Rightarrow> int \<Rightarrow> int \<Rightarrow> int" where
  "monthlyCandidate tz today months =
     (case civil_from_days (localDay tz today) of
        (year, month, day) \<Rightarrow>
          (let monthIndex = (month - 1) + months;
               the15th = days_from_civil (year + monthIndex div 12) (monthIndex mod 12 + 1) 15
           in nextFriday tz (the15th * msPerDay - tz)))"

text \<open>The local \<open>dte\<close> of both loops, and the test that keeps a candidate.\<close>

definition candidateDte :: "int \<Rightarrow> int \<Rightarrow> int" where
  "candidateDte today expDate = (expDate - today) div msPerDay"

definition inWindow :: "int \<Rightarrow> int \<Rightarrow> int \<Rightarrow> int \<Rightarrow> bool" where
  "inWindow today minDte maxDte expDate =
     (candidateDte today expDate \<ge> minDte \<and> candidateDte today expDate \<le> maxDte)"

text \<open>
  The instants whose dates \<open>getExpirationDates\<close> pushes, in the order of the pushes,
  and the function itself. \<open>today\<close> is the instant \<open>new Date()\<close> returns.
\<close>

definition keptCandidates :: "int \<Rightarrow> int \<Rightarrow> int \<Rightarrow> int \<Rightarrow> int list" where
  "keptCandidates tz today minDte maxDte =
     filter (inWindow today minDte maxDte) (map (weeklyCandidate tz today) [1 .. 12])
     @ filter (inWindow today minDte maxDte) (map (monthlyCandidate tz today) [1 .. 3])"

definition getExpirationDates :: "int \<Rightarrow> int \<Rightarrow> int \<Rightarrow> int \<Rightarrow> int list" where
  "getExpirationDates tz today minDte maxDte =
     take 3 (map isoDate (keptCandidates tz today minDte maxDte))"

section \<open>Strategy synthesizer\<close>

text \<open>
  A number of the synthesizer can be \<open>NaN\<close>, and a strike read from the ladder by index
  can be \<open>undefined\<close>: both are \<open>None\<close>. Arithmetic on \<open>NaN\<close> or \<open>undefined\<close> gives
  \<open>NaN\<close>, and every comparison with \<open>NaN\<close> or \<open>undefined\<close> is false.
\<close>

type_synonym jsnum = "real option"

definition lift2 :: "(real \<Rightarrow> real \<Rightarrow> real) \<Rightarrow> jsnum \<Rightarrow> jsnum \<Rightarrow> jsnum" where
  "lift2 f a b =
     (case a of None \<Rightarrow> None
      | Some x \<Rightarrow> (case b of None \<Rightarrow> None | Some y \<Rightarrow> Some (f x y)))"

definition nadd :: "jsnum \<Rightarrow> jsnum \<Rightarrow> jsnum" where
  "nadd = lift2 (\<lambda>x y. x + y)"

definition nsub :: "jsnum \<Rightarrow> jsnum \<Rightarrow> jsnum" where
  "nsub = lift2 (\<lambda>x y. x - y)"

definition nmax :: "jsnum \<Rightarrow> jsnum \<Rightarrow> jsnum" where
  "nmax = lift2 max"

definition nneg :: "jsnum \<Rightarrow> jsnum" where
  "nneg = map_option (\<lambda>x. - x)"

text \<open>\<open>Math.round(a * 100)\<close> and \<open>Math.round(Math.abs(a * 100))\<close>.\<close>

definition nround100 :: "jsnum \<Rightarrow> jsnum" where
  "nround100 = map_option (\<lambda>x. real_of_int (Math_round (x * 100)))"

definition nroundabs100 :: "jsnum \<Rightarrow> jsnum" where
  "nroundabs100 = map_option (\<lambda>x. real_of_int (Math_round \<bar>x * 100\<bar>))"

text \<open>\<open>a > c\<close>, \<open>a <= c\<close>, \<open>s < a\<close> and \<open>s > a\<close> for a number \<open>a\<close> that can be \<open>NaN\<close>.\<close>

definition ngt :: "jsnum \<Rightarrow> real \<Rightarrow> bool" where
  "ngt a c = (case a of None \<Rightarrow> False | Some x \<Rightarrow> x > c)"

definition nle :: "jsnum \<Rightarrow> real \<Rightarrow> bool" where
  "nle a c = (case a of None \<Rightarrow> False | Some x \<Rightarrow> x \<le> c)"

definition below :: "real \<Rightarrow> jsnum \<Rightarrow> bool" where
  "below s a = (case a of None \<Rightarrow> False | Some x \<Rightarrow> s < x)"

definition above :: "real \<Rightarrow> jsnum \<Rightarrow> bool" where
  "above s a = (case a of None \<Rightarrow> False | Some x \<Rightarrow> s > x)"

text \<open>
  \<open>strikes.find(P) || strikes[i]\<close>: the first strike that satisfies \<open>P\<close>; when there is
  none, or when it is 0 (which \<open>||\<close> takes for false), the strike at index \<open>i\<close>.
\<close>

definition find_or :: "(real \<Rightarrow> bool) \<Rightarrow> real list \<Rightarrow> nat \<Rightarrow> jsnum" where
  "find_or P strikes i =
     (case List.find P strikes of
        None \<Rightarrow> at_index strikes i
      | Some s \<Rightarrow> (if s = 0 then at_index strikes i else Some s))"

record JsGreeks =
  jdelta :: jsnum
  jgamma :: jsnum
  jtheta :: jsnum
  jvega :: jsnum

record Quote =
  qprice :: jsnum
  qgreeks :: JsGreeks

definition quoteOf :: "PricingQuote \<Rightarrow> Quote" where
  "quoteOf q =
     \<lparr>qprice = Some (price q),
      qgreeks = \<lparr>jdelta = Some (delta (greeks q)), jgamma = Some (gamma (greeks q)),
                 jtheta = Some (theta (greeks q)), jvega = Some (vega (greeks q))\<rparr>\<rparr>"

definition nanQuote :: Quote where
  "nanQuote =
     \<lparr>qprice = None,
      qgreeks = \<lparr>jdelta = None, jgamma = None, jtheta = None, jvega = None\<rparr>\<rparr>"

text \<open>
  \<open>calculateOptionPrice\<close> as the synthesizer calls it, with a strike that can be
  \<open>undefined\<close> and a time that can be \<open>NaN\<close>. With a \<open>NaN\<close> time the test \<open>T <= 0\<close> is
  false and every value of the Black-Scholes path is \<open>NaN\<close>, also \<open>Math.max(NaN, 0.05)\<close>.
  With an \<open>undefined\<close> strike the intrinsic value is \<open>NaN\<close> and both moneyness tests are
  false on the expired path, and every value is \<open>NaN\<close> on the other.
\<close>

definition priceLeg :: "real \<Rightarrow> jsnum \<Rightarrow> jsnum \<Rightarrow> real \<Rightarrow> real \<Rightarrow> bool \<Rightarrow> real \<Rightarrow> Quote" where
  "priceLeg currentPrice strike timeToExpiry volatility riskFreeRate isCall u =
     (case timeToExpiry of
        None \<Rightarrow> nanQuote
      | Some t \<Rightarrow>
          (case strike of
             Some k \<Rightarrow>
               quoteOf (calculateOptionPrice currentPrice k t volatility riskFreeRate isCall u)
           | None \<Rightarrow>
               (if t / 365 \<le> 0
                then \<lparr>qprice = None,
                      qgreeks = \<lparr>jdelta = Some 0, jgamma = Some 0,
                                 jtheta = Some 0, jvega = Some 0\<rparr>\<rparr>
                else nanQuote)))"

definition greeksSub :: "JsGreeks \<Rightarrow> JsGreeks \<Rightarrow> JsGreeks" where
  "greeksSub a b =
     \<lparr>jdelta = nsub (jdelta a) (jdelta b), jgamma = nsub (jgamma a) (jgamma b),
      jtheta = nsub (jtheta a) (jtheta b), jvega = nsub (jvega a) (jvega b)\<rparr>"

definition greeksAdd :: "JsGreeks \<Rightarrow> JsGreeks \<Rightarrow> JsGreeks" where
  "greeksAdd a b =
     \<lparr>jdelta = nadd (jdelta a) (jdelta b), jgamma = nadd (jgamma a) (jgamma b),
      jtheta = nadd (jtheta a) (jtheta b), jvega = nadd (jvega a) (jvega b)\<rparr>"

datatype OptionType = Call | Put

datatype Action = Buy | Sell

text \<open>
  A leg and a strategy. The expiry of a leg is the date text of the calendar (a day
  number), or \<open>undefined\<close>. The field \<open>description\<close> of a strategy, a text for the
  reader, is not modelled; \<open>sid\<close> and \<open>stype\<close> are the fields \<open>id\<close> and \<open>type\<close>.
\<close>

record StrategyLeg =
  optionType :: OptionType
  action :: Action
  strike :: jsnum
  expiry :: "int option"
  quantity :: nat
  premium :: jsnum
  legGreeks :: JsGreeks

record Strategy =
  sid :: string
  name :: string
  stype :: string
  confidence :: real
  maxProfit :: jsnum
  maxLoss :: jsnum
  capitalRequired :: jsnum
  probabilityOfProfit :: real
  legs :: "StrategyLeg list"
  strategyGreeks :: JsGreeks
  breakEvenPoints :: "jsnum list"

definition mkLeg :: "OptionType \<Rightarrow> Action \<Rightarrow> jsnum \<Rightarrow> int option \<Rightarrow> Quote \<Rightarrow> StrategyLeg" where
  "mkLeg ty act k e q =
     \<lparr>optionType = ty, action = act, strike = k, expiry = e, quantity = 1,
      premium = qprice q, legGreeks = qgreeks q\<rparr>"

text \<open>
  The seven sections of \<open>generateStrategies\<close>, each the list of what it pushes (one
  strategy or none). \<open>rnd k\<close> is the value of the \<open>k\<close>-th call of \<open>Math.random\<close> in the
  order of the text of \<open>generateStrategies\<close>, a call inside \<open>calculateOptionPrice\<close>
  counted where \<open>calculateOptionPrice\<close> is called; each of these calls runs at most once.
\<close>

definition bullPutSpread ::
  "real \<Rightarrow> real list \<Rightarrow> int option \<Rightarrow> jsnum \<Rightarrow> real \<Rightarrow> (nat \<Rightarrow> real) \<Rightarrow> Strategy list" where
  "bullPutSpread currentPrice strikes primaryExpiry dte iv rnd =
     (let bullPutShortStrike = find_or (\<lambda>s. s < currentPrice * 0.93) strikes 2;
          bullPutLongStrike = find_or (\<lambda>s. below s (nsub bullPutShortStrike (Some 10))) strikes 1;
          shortPutPrice = priceLeg currentPrice bullPutShortStrike dte iv 0.05 False (rnd 1);
          longPutPrice = priceLeg currentPrice bullPutLongStrike dte iv 0.05 False (rnd 2);
          bullPutCredit = nsub (qprice shortPutPrice) (qprice longPutPrice);
          bullPutMaxLoss = nsub (nsub bullPutShortStrike bullPutLongStrike) bullPutCredit
      in if nle bullPutCredit 0.05 then []
         else [\<lparr>sid = ''1'', name = ''Bull Put Spread'', stype = ''bullish'',
                 confidence = jitter 72.5 (rnd 3) 5,
                 maxProfit = nround100 bullPutCredit,
                 maxLoss = nneg (nround100 bullPutMaxLoss),
                 capitalRequired = nroundabs100 bullPutMaxLoss,
                 probabilityOfProfit = jitter 0.68 (rnd 4) 0.1,
                 legs = [mkLeg Put Sell bullPutShortStrike primaryExpiry shortPutPrice,
                         mkLeg Put Buy bullPutLongStrike primaryExpiry longPutPrice],
                 strategyGreeks = greeksSub (qgreeks shortPutPrice) (qgreeks longPutPrice),
                 breakEvenPoints = [nsub bullPutShortStrike bullPutCredit]\<rparr>])"

definition ironCondor ::
  "real \<Rightarrow> real list \<Rightarrow> int option \<Rightarrow> jsnum \<Rightarrow> real \<Rightarrow> (nat \<Rightarrow> real) \<Rightarrow> Strategy list" where
  "ironCondor currentPrice strikes primaryExpiry dte iv rnd =
     (let icCallShortStrike = find_or (\<lambda>s. s > currentPrice * 1.07) strikes 6;
          icCallLongStrike = find_or (\<lambda>s. above s (nadd icCallShortStrike (Some 10))) strikes 7;
          icPutShortStrike = find_or (\<lambda>s. s < currentPrice * 0.93) strikes 2;
          icPutLongStrike = find_or (\<lambda>s. below s (nsub icPutShortStrike (Some 10))) strikes 1;
          icCallShort = priceLeg currentPrice icCallShortStrike dte iv 0.05 True (rnd 5);
          icCallLong = priceLeg currentPrice icCallLongStrike dte iv 0.05 True (rnd 6);
          icPutShort = priceLeg currentPrice icPutShortStrike dte iv 0.05 False (rnd 7);
          icPutLong = priceLeg currentPrice icPutLongStrike dte iv 0.05 False (rnd 8);
          icCredit = nadd (nsub (qprice icCallShort) (qprice icCallLong))
                          (nsub (qprice icPutShort) (qprice icPutLong));
          icMaxLoss = nsub (nmax (nsub icCallLongStrike icCallShortStrike)
                                 (nsub icPutShortStrike icPutLongStrike)) icCredit
      in if ngt icCredit 0.10
         then [\<lparr>sid = ''2'', name = ''Iron Condor'', stype = ''neutral'',
                 confidence = jitter 65.2 (rnd 9) 5,
                 maxProfit = nround100 icCredit,
                 maxLoss = nneg (nround100 icMaxLoss),
                 capitalRequired = nroundabs100 icMaxLoss,
                 probabilityOfProfit = jitter 0.58 (rnd 10) 0.1,
                 legs = [mkLeg Call Sell icCallShortStrike primaryExpiry icCallShort,
                         mkLeg Call Buy icCallLongStrike primaryExpiry icCallLong,
                         mkLeg Put Sell icPutShortStrike primaryExpiry icPutShort,
                         mkLeg Put Buy icPutLongStrike primaryExpiry icPutLong],
                 strategyGreeks = greeksAdd (greeksSub (qgreeks icCallShort) (qgreeks icCallLong))
                                            (greeksSub (qgreeks icPutShort) (qgreeks icPutLong)),
                 breakEvenPoints = [nsub icPutShortStrike icCredit,
                                    nadd icCallShortStrike icCredit]\<rparr>]
         else [])"

definition cashSecuredPut ::
  "real \<Rightarrow> real list \<Rightarrow> int option \<Rightarrow> jsnum \<Rightarrow> real \<Rightarrow> (nat \<Rightarrow> real) \<Rightarrow> Strategy list" where
  "cashSecuredPut currentPrice strikes primaryExpiry dte iv rnd =
     (let cspStrike = find_or (\<lambda>s. s < currentPrice * 0.95) strikes 3;
          cspOption = priceLeg currentPrice cspStrike dte iv 0.05 False (rnd 11)
      in [\<lparr>sid = ''3'', name = ''Cash Secured Put'', stype = ''bullish'',
            confidence = jitter 69.8 (rnd 12) 5,
            maxProfit = nround100 (qprice cspOption),
            maxLoss = nneg (nround100 (nsub cspStrike (qprice cspOption))),
            capitalRequired = nround100 cspStrike,
            probabilityOfProfit = jitter 0.65 (rnd 13) 0.1,
            legs = [mkLeg Put Sell cspStrike primaryExpiry cspOption],
            strategyGreeks = qgreeks cspOption,
            breakEvenPoints = [nsub cspStrike (qprice cspOption)]\<rparr>])"

definition longStraddle ::
  "real \<Rightarrow> real list \<Rightarrow> int option \<Rightarrow> jsnum \<Rightarrow> real \<Rightarrow> (nat \<Rightarrow> real) \<Rightarrow> Strategy list" where
  "longStraddle currentPrice strikes primaryExpiry dte iv rnd =
     (let straddleStrike = find_or (\<lambda>s. \<bar>s - currentPrice\<bar> < 5) strikes 4;
          straddleIV = iv + 0.05;
          callOption = priceLeg currentPrice straddleStrike dte straddleIV 0.05 True (rnd 14);
          putOption = priceLeg currentPrice straddleStrike dte straddleIV 0.05 False (rnd 15);
          straddleCost = nadd (qprice callOption) (qprice putOption)
      in [\<lparr>sid = ''4'', name = ''Long Straddle'', stype = ''volatility'',
            confidence = jitter 58.5 (rnd 16) 5,
            maxProfit = Some 99999,
            maxLoss = nneg (nround100 straddleCost),
            capitalRequired = nround100 straddleCost,
            probabilityOfProfit = jitter 0.45 (rnd 17) 0.1,
            legs = [mkLeg Call Buy straddleStrike primaryExpiry callOption,
                    mkLeg Put Buy straddleStrike primaryExpiry putOption],
            strategyGreeks = greeksAdd (qgreeks callOption) (qgreeks putOption),
            breakEvenPoints = [nsub straddleStrike straddleCost,
                               nadd straddleStrike straddleCost]\<rparr>])"

definition coveredCall ::
  "real \<Rightarrow> real list \<Rightarrow> int option \<Rightarrow> jsnum \<Rightarrow> real \<Rightarrow> (nat \<Rightarrow> real) \<Rightarrow> Strategy list" where
  "coveredCall currentPrice strikes primaryExpiry dte iv rnd =
     (let ccStrike = find_or (\<lambda>s. s > currentPrice * 1.05) strikes 6;
          ccOption = priceLeg currentPrice ccStrike dte iv 0.05 True (rnd 18)
      in [\<lparr>sid = ''5'', name = ''Covered Call'', stype = ''neutral'',
            confidence = jitter 66.7 (rnd 19) 5,
            maxProfit = nround100 (nadd (nsub ccStrike (Some currentPrice)) (qprice ccOption)),
            maxLoss = nneg (nround100 (nsub (Some currentPrice) (qprice ccOption))),
            capitalRequired = nround100 (Some currentPrice),
            probabilityOfProfit = jitter 0.72 (rnd 20) 0.1,
            legs = [mkLeg Call Sell ccStrike primaryExpiry ccOption],
            strategyGreeks =
              \<lparr>jdelta = nadd (nneg (jdelta (qgreeks ccOption))) (Some 1),
               jgamma = nneg (jgamma (qgreeks ccOption)),
               jtheta = nneg (jtheta (qgreeks ccOption)),
               jvega = nneg (jvega (qgreeks ccOption))\<rparr>,
            breakEvenPoints = [nsub (Some currentPrice) (qprice ccOption)]\<rparr>])"

definition bearCallSpread ::
  "real \<Rightarrow> real list \<Rightarrow> int option \<Rightarrow> jsnum \<Rightarrow> real \<Rightarrow> (nat \<Rightarrow> real) \<Rightarrow> Strategy list" where
  "bearCallSpread currentPrice strikes primaryExpiry dte iv rnd =
     (let bearCallShortStrike = find_or (\<lambda>s. s > currentPrice * 1.02) strikes 5;
          bearCallLongStrike = find_or (\<lambda>s. above s (nadd bearCallShortStrike (Some 10))) strikes 6;
          bearCallShort = priceLeg currentPrice bearCallShortStrike dte iv 0.05 True (rnd 21);
          bearCallLong = priceLeg currentPrice bearCallLongStrike dte iv 0.05 True (rnd 22);
          bearCallCredit = nsub (qprice bearCallShort) (qprice bearCallLong);
          bearCallMaxLoss = nsub (nsub bearCallLongStrike bearCallShortStrike) bearCallCredit
      in if ngt bearCallCredit 0.05
         then [\<lparr>sid = ''6'', name = ''Bear Call Spread'', stype = ''bearish'',
                 confidence = jitter 63.5 (rnd 23) 5,
                 maxProfit = nround100 bearCallCredit,
                 maxLoss = nneg (nround100 bearCallMaxLoss),
                 capitalRequired = nroundabs100 bearCallMaxLoss,
                 probabilityOfProfit = jitter 0.62 (rnd 24) 0.1,
                 legs = [mkLeg Call Sell bearCallShortStrike primaryExpiry bearCallShort,
                         mkLeg Call Buy bearCallLongStrike primaryExpiry bearCallLong],
                 strategyGreeks = greeksSub (qgreeks bearCallShort) (qgreeks bearCallLong),
                 breakEvenPoints = [nadd bearCallShortStrike bearCallCredit]\<rparr>]
         else [])"

definition bullCallSpread ::
  "real \<Rightarrow> real list \<Rightarrow> int option \<Rightarrow> jsnum \<Rightarrow> real \<Rightarrow> (nat \<Rightarrow> real) \<Rightarrow> Strategy list" where
  "bullCallSpread currentPrice strikes primaryExpiry dte iv rnd =
     (let bullCallLongStrike = find_or (\<lambda>s. s > currentPrice * 1.02) strikes 5;
          bullCallShortStrike = find_or (\<lambda>s. above s (nadd bullCallLongStrike (Some 10))) strikes 6;
          bullCallLong = priceLeg currentPrice bullCallLongStrike dte iv 0.05 True (rnd 25);
          bullCallShort = priceLeg currentPrice bullCallShortStrike dte iv 0.05 True (rnd 26);
          bullCallDebit = nsub (qprice bullCallLong) (qprice bullCallShort);
          bullCallMaxProfit = nsub (nsub bullCallShortStrike bullCallLongStrike) bullCallDebit
      in if ngt bullCallDebit 0 \<and> ngt bullCallMaxProfit 0.10
         then [\<lparr>sid = ''7'', name = ''Bull Call Spread'', stype = ''bullish'',
                 confidence = jitter 68.2 (rnd 27) 5,
                 maxProfit = nround100 bullCallMaxProfit,
                 maxLoss = nneg (nround100 bullCallDebit),
                 capitalRequired = nround100 bullCallDebit,
                 probabilityOfProfit = jitter 0.58 (rnd 28) 0.1,
                 legs = [mkLeg Call Buy bullCallLongStrike primaryExpiry bullCallLong,
                         mkLeg Call Sell bullCallShortStrike primaryExpiry bullCallShort],
                 strategyGreeks = greeksSub (qgreeks bullCallLong) (qgreeks bullCallShort),
                 breakEvenPoints = [nadd bullCallLongStrike bullCallDebit]\<rparr>]
         else [])"

text \<open>
  The local \<open>dte\<close> of \<open>generateStrategies\<close>: \<open>new Date(undefined)\<close> is an invalid date,
  whose \<open>getTime()\<close> is \<open>NaN\<close>. \<open>now\<close> is the instant \<open>new Date()\<close> returns there.
\<close>

definition primaryDte :: "int option \<Rightarrow> int \<Rightarrow> jsnum" where
  "primaryDte primaryExpiry now =
     (case primaryExpiry of
        None \<Rightarrow> None
      | Some day \<Rightarrow> Some (real_of_int ((parseDate day - now) div msPerDay)))"

text \<open>
  \<open>generateStrategies\<close>. Before the arguments of the source come what it reads from its
  environment: the time zone, the clock (read by \<open>getExpirationDates\<close> as \<open>today\<close> and
  then again as \<open>now\<close>) and the random numbers. The argument \<open>ticker\<close> goes into the
  descriptions only.

  No step of \<open>generateStrategies\<close> throws: an array read out of range gives
  \<open>undefined\<close>, \<open>find\<close> without a match gives \<open>undefined\<close>, arithmetic and
  \<open>Math\<close> functions on \<open>undefined\<close> or \<open>NaN\<close> give \<open>NaN\<close>, the time of an invalid
  date is \<open>NaN\<close>, and \<open>toFixed(2)\<close> of \<open>NaN\<close> is a text. So the function always
  returns a list, and the model has no error value.
\<close>

definition generateStrategies ::
  "int \<Rightarrow> int \<Rightarrow> int \<Rightarrow> (nat \<Rightarrow> real) \<Rightarrow> real \<Rightarrow> int \<Rightarrow> int \<Rightarrow> Strategy list" where
  "generateStrategies tz today now rnd currentPrice minDte maxDte =
     (let strikes = generateStrikes currentPrice;
          expirations = getExpirationDates tz today minDte maxDte;
          primaryExpiry = at_index expirations 0;
          dte = primaryDte primaryExpiry now;
          iv = jitter 0.35 (rnd 0) 0.15
      in bullPutSpread currentPrice strikes primaryExpiry dte iv rnd
         @ ironCondor currentPrice strikes primaryExpiry dte iv rnd
         @ cashSecuredPut currentPrice strikes primaryExpiry dte iv rnd
         @ longStraddle currentPrice strikes primaryExpiry dte iv rnd
         @ coveredCall currentPrice strikes primaryExpiry dte iv rnd
         @ bearCallSpread currentPrice strikes primaryExpiry dte iv rnd
         @ bullCallSpread currentPrice strikes primaryExpiry dte iv rnd)"

section \<open>Risk profile filter and ranking\<close>

text \<open>
  The part of \<open>handler\<close> from the \<open>switch\<close> to the \<open>slice\<close>: the value \<open>strategies\<close> of
  the response. \<open>maxStrategies\<close> is \<open>None\<close> when the request does not give it.
\<close>

definition handlerStrategies :: "Strategy list \<Rightarrow> string \<Rightarrow> int option \<Rightarrow> Strategy list" where
  "handlerStrategies allStrategies riskProfile maxStrategiesField =
     (let maxStrategies = (case maxStrategiesField of None \<Rightarrow> 5 | Some m \<Rightarrow> m);
          filteredStrategies =
            (if riskProfile = ''conservative''
             then filter (\<lambda>s. confidence s \<ge> 65 \<and> stype s \<noteq> ''volatility'') allStrategies
             else if riskProfile = ''moderate''
             then filter (\<lambda>s. confidence s \<ge> 60) allStrategies
             else if riskProfile = ''moderate_aggressive''
             then filter (\<lambda>s. confidence s \<ge> 55) allStrategies
             else allStrategies)
      in Array_slice0 (Array_sort (\<lambda>a b. confidence b - confidence a) filteredStrategies)
           maxStrategies)"

text \<open>A strategy with given name, type and confidence, for the examples of the ranking.\<close>

definition exampleStrategy :: "string \<Rightarrow> string \<Rightarrow> real \<Rightarrow> Strategy" where
  "exampleStrategy n ty c =
     \<lparr>sid = ''0'', name = n, stype = ty, confidence = c, maxProfit = Some 0,
      maxLoss = Some 0, capitalRequired = Some 0, probabilityOfProfit = 0.5, legs = [],
      strategyGreeks = \<lparr>jdelta = Some 0, jgamma = Some 0, jtheta = Some 0, jvega = Some 0\<rparr>,
      breakEvenPoints = []\<rparr>"

section \<open>Names used by the statements\<close>

text \<open>
  The base confidence of each strategy of the catalog, by name, as statement C10 lists
  them, and the call of \<open>Math.random\<close> that gives the jitter of its confidence.
\<close>

definition baseConfidence :: "string \<Rightarrow> real" where
  "baseConfidence n =
     (if n = ''Bull Put Spread'' then 72.5
      else if n = ''Iron Condor'' then 65.2
      else if n = ''Cash Secured Put'' then 69.8
      else if n = ''Long Straddle'' then 58.5
      else if n = ''Covered Call'' then 66.7
      else if n = ''Bear Call Spread'' then 63.5
      else if n = ''Bull Call Spread'' then 68.2
      else 0)"

definition confidenceDraw :: "string \<Rightarrow> nat" where
  "confidenceDraw n =
     (if n = ''Bull Put Spread'' then 3
      else if n = ''Iron Condor'' then 9
      else if n = ''Cash Secured Put'' then 12
      else if n = ''Long Straddle'' then 16
      else if n = ''Covered Call'' then 19
      else if n = ''Bear Call Spread'' then 23
      else if n = ''Bull Call Spread'' then 27
      else 0)"

definition catalogNames :: "string list" where
  "catalogNames = [''Bull Put Spread'', ''Iron Condor'', ''Cash Secured Put'', ''Long Straddle'',
     ''Covered Call'', ''Bear Call Spread'', ''Bull Call Spread'']"

text \<open>
  The largest value of \<open>Math.random\<close> that has 52 random bits: 1 less \<open>2 powr (- 52)\<close>.
\<close>

definition almostOne :: real where
  "almostOne = 1 - 1 / 2 ^ 52"

text \<open>A strike that is defined and above 0.\<close>

definition definedPositive :: "jsnum \<Rightarrow> bool" where
  "definedPositive a = (case a of None \<Rightarrow> False | Some x \<Rightarrow> 0 < x)"

text \<open>What the statements below read of a strategy, and the ladder at spot 100.\<close>

definition summary :: "Strategy \<Rightarrow> string \<times> jsnum \<times> jsnum list \<times> jsnum list \<times> int option list" where
  "summary s = (name s, maxProfit s, map premium (legs s), map strike (legs s), map expiry (legs s))"

abbreviation ladder100 :: "real list" where
  "ladder100 \<equiv> [70, 75, 80, 85, 90, 95, 100, 105, 110, 115, 120, 125, 130]"

text \<open>
  The locals \<open>bullPutCredit\<close> and \<open>bearCallCredit\<close> of \<open>generateStrategies\<close>, as
  functions of what they depend on.
\<close>

definition bullPutCredit :: "real \<Rightarrow> real list \<Rightarrow> jsnum \<Rightarrow> real \<Rightarrow> (nat \<Rightarrow> real) \<Rightarrow> jsnum" where
  "bullPutCredit p ks d iv rnd =
     nsub (qprice (priceLeg p (find_or (\<lambda>s. s < p * 0.93) ks 2) d iv 0.05 False (rnd 1)))
          (qprice (priceLeg p
             (find_or (\<lambda>s. below s (nsub (find_or (\<lambda>s. s < p * 0.93) ks 2) (Some 10))) ks 1)
             d iv 0.05 False (rnd 2)))"

definition bearCallCredit :: "real \<Rightarrow> real list \<Rightarrow> jsnum \<Rightarrow> real \<Rightarrow> (nat \<Rightarrow> real) \<Rightarrow> jsnum" where
  "bearCallCredit p ks d iv rnd =
     nsub (qprice (priceLeg p (find_or (\<lambda>s. s > p * 1.02) ks 5) d iv 0.05 True (rnd 21)))
          (qprice (priceLeg p
             (find_or (\<lambda>s. above s (nadd (find_or (\<lambda>s. s > p * 1.02) ks 5) (Some 10))) ks 6)
             d iv 0.05 True (rnd 22)))"

section \<open>Theorems: rounding to a double\<close>

text \<open>
  What the statements below use of \<open>fl\<close>: it leaves a representable number unchanged
  (in particular an integer or an integer plus one half, below \<open>2 ^ 52\<close> in absolute
  value), it is monotone on the numbers from 0 on, and in a known binade it is the
  rounding of a quotient to an integer.
\<close>

lemma roundHalfEven_int: "roundHalfEven (real_of_int n) = n"
  by (simp add: roundHalfEven_def)

lemma roundHalfEven_bounds: "\<lfloor>q\<rfloor> \<le> roundHalfEven q \<and> roundHalfEven q \<le> \<lfloor>q\<rfloor> + 1"
  by (simp add: roundHalfEven_def Let_def)

lemma roundHalfEven_mono:
  assumes "p \<le> q"
  shows "roundHalfEven p \<le> roundHalfEven q"
proof (cases "\<lfloor>p\<rfloor> = \<lfloor>q\<rfloor>")
  case True
  with assms show ?thesis
    by (auto simp: roundHalfEven_def Let_def)
next
  case False
  with assms have "\<lfloor>p\<rfloor> < \<lfloor>q\<rfloor>" by (simp add: floor_mono le_neq_trans)
  with roundHalfEven_bounds [of p] roundHalfEven_bounds [of q] show ?thesis by linarith
qed

lemma roundHalfEven_le_int:
  assumes "q \<le> real_of_int n"
  shows "roundHalfEven q \<le> n"
  using roundHalfEven_mono [OF assms] by (simp add: roundHalfEven_int)

lemma roundHalfEven_ge_int:
  assumes "real_of_int n \<le> q"
  shows "n \<le> roundHalfEven q"
  using roundHalfEven_mono [OF assms] by (simp add: roundHalfEven_int)

text \<open>A number above 0 lies in one binade, which fixes the floor of its logarithm.\<close>

lemma binade:
  assumes "0 < x"
  shows "2 powr real_of_int \<lfloor>log 2 x\<rfloor> \<le> x" "x < 2 powr real_of_int (\<lfloor>log 2 x\<rfloor> + 1)"
proof -
  have "real_of_int \<lfloor>log 2 x\<rfloor> \<le> log 2 x" by simp
  then show "2 powr real_of_int \<lfloor>log 2 x\<rfloor> \<le> x"
    using assms le_log_iff [of 2 x "real_of_int \<lfloor>log 2 x\<rfloor>"] by simp
  have "log 2 x < real_of_int (\<lfloor>log 2 x\<rfloor> + 1)" by linarith
  then show "x < 2 powr real_of_int (\<lfloor>log 2 x\<rfloor> + 1)"
    using assms log_less_iff [of 2 x "real_of_int (\<lfloor>log 2 x\<rfloor> + 1)"] by simp
qed

lemma binade_unique:
  assumes "0 < x" "2 powr real_of_int E \<le> x" "x < 2 powr real_of_int (E + 1)"
  shows "\<lfloor>log 2 x\<rfloor> = E"
proof -
  from assms have "real_of_int E \<le> log 2 x"
    using le_log_iff [of 2 x "real_of_int E"] by simp
  moreover from assms have "log 2 x < real_of_int (E + 1)"
    using log_less_iff [of 2 x "real_of_int (E + 1)"] by simp
  ultimately show ?thesis by linarith
qed

lemma two_powr_int:
  assumes "0 \<le> k"
  shows "2 powr real_of_int k = real_of_int (2 ^ nat k)"
proof -
  have "2 powr real_of_int k = 2 powr real (nat k)" using assms by simp
  also have "\<dots> = 2 ^ nat k" by (simp add: powr_realpow)
  finally show ?thesis by simp
qed

lemma two_powr_diff: "2 powr real_of_int a / 2 powr real_of_int b = 2 powr real_of_int (a - b)"
  by (simp add: powr_diff)

lemma fl_zero: "fl 0 = 0"
  by (simp add: fl_def)

lemma fl_nonneg:
  assumes "0 \<le> x"
  shows "0 \<le> fl x"
proof (cases "x = 0")
  case True
  then show ?thesis by (simp add: fl_def)
next
  case False
  define u where "u = 2 powr real_of_int (max (\<lfloor>log 2 \<bar>x\<bar>\<rfloor> - 52) (- 1074))"
  have u: "0 < u" by (simp add: u_def)
  with assms have "0 \<le> x / u" by simp
  then have "0 \<le> \<lfloor>x / u\<rfloor>" by simp
  with roundHalfEven_bounds [of "x / u"] have "0 \<le> roundHalfEven (x / u)" by linarith
  with u False show ?thesis by (simp add: fl_def Let_def u_def [symmetric])
qed

lemma fl_exact:
  assumes x: "x = real_of_int m * 2 powr real_of_int k"
    and m: "\<bar>m\<bar> < 2 ^ 53" and k: "- 1074 \<le> k"
  shows "fl x = x"
proof (cases "x = 0")
  case True
  then show ?thesis by (simp add: fl_def)
next
  case False
  define E where "E = \<lfloor>log 2 \<bar>x\<bar>\<rfloor>"
  define e where "e = max (E - 52) (- 1074)"
  define u where "u = 2 powr real_of_int e"
  have u: "0 < u" by (simp add: u_def)
  from False have ax: "0 < \<bar>x\<bar>" by simp
  have "\<bar>x\<bar> = real_of_int \<bar>m\<bar> * 2 powr real_of_int k"
    unfolding x by (simp add: abs_mult)
  also have "\<dots> < 2 ^ 53 * 2 powr real_of_int k"
  proof -
    from m have "real_of_int \<bar>m\<bar> < 2 ^ 53"
      by (metis of_int_less_iff of_int_numeral of_int_power)
    then show ?thesis by simp
  qed
  also have "\<dots> = 2 powr real_of_int (53 + k)"
    by (simp add: powr_add)
  finally have lt: "\<bar>x\<bar> < 2 powr real_of_int (53 + k)" .
  have "2 powr real_of_int E \<le> \<bar>x\<bar>" unfolding E_def using ax by (rule binade)
  with lt have "2 powr real_of_int E < 2 powr real_of_int (53 + k)" by linarith
  then have "E < 53 + k" by simp
  with k have ek: "e \<le> k" by (simp add: e_def)
  have h: "2 powr real_of_int (k - e) = real_of_int (2 ^ nat (k - e))"
    by (rule two_powr_int) (use ek in simp)
  have "x / u = real_of_int m * (2 powr real_of_int k / 2 powr real_of_int e)"
    unfolding x u_def by simp
  also have "\<dots> = real_of_int m * 2 powr real_of_int (k - e)"
    by (simp only: two_powr_diff)
  also have "\<dots> = real_of_int (m * 2 ^ nat (k - e))"
    by (simp only: h of_int_mult)
  finally have "roundHalfEven (x / u) = m * 2 ^ nat (k - e)"
    by (simp only: roundHalfEven_int)
  then have "real_of_int (roundHalfEven (x / u)) * u
      = real_of_int m * (real_of_int (2 ^ nat (k - e)) * 2 powr real_of_int e)"
    by (simp add: u_def)
  also have "real_of_int (2 ^ nat (k - e)) * 2 powr real_of_int e = 2 powr real_of_int k"
  proof -
    have "2 powr real_of_int (k - e) * 2 powr real_of_int e = 2 powr real_of_int k"
      by (simp add: powr_add [symmetric])
    then show ?thesis by (simp only: h)
  qed
  finally have "real_of_int (roundHalfEven (x / u)) * u = x" unfolding x .
  with False show ?thesis
    by (simp add: fl_def Let_def E_def [symmetric] e_def [symmetric] u_def [symmetric])
qed

lemma fl_half_integer:
  assumes "2 * x = real_of_int m" "\<bar>x\<bar> < 2 ^ 52"
  shows "fl x = x"
proof (rule fl_exact [where m = m and k = "- 1"])
  from assms(1) show "x = real_of_int m * 2 powr real_of_int (- 1)"
    by (simp add: powr_minus field_simps)
  from assms have "\<bar>real_of_int m\<bar> < 2 ^ 53" by (simp add: abs_mult flip: assms(1))
  then have "real_of_int \<bar>m\<bar> < real_of_int (2 ^ 53)" by simp
  then show "\<bar>m\<bar> < 2 ^ 53" by (simp only: of_int_less_iff)
qed simp

lemma fl_integer:
  assumes "\<bar>real_of_int n\<bar> < 2 ^ 52"
  shows "fl (real_of_int n) = real_of_int n"
  by (rule fl_half_integer [where m = "2 * n"]) (use assms in simp_all)

lemma fl_pos_unfold:
  assumes "0 < x"
  shows "fl x = real_of_int (roundHalfEven
            (x / 2 powr real_of_int (max (\<lfloor>log 2 x\<rfloor> - 52) (- 1074))))
          * 2 powr real_of_int (max (\<lfloor>log 2 x\<rfloor> - 52) (- 1074))"
  using assms by (simp add: fl_def Let_def)

lemma fl_mono_pos:
  assumes "0 < x" "x \<le> y"
  shows "fl x \<le> fl y"
proof -
  define Ex where "Ex = \<lfloor>log 2 x\<rfloor>"
  define Ey where "Ey = \<lfloor>log 2 y\<rfloor>"
  define ex where "ex = max (Ex - 52) (- 1074)"
  define ey where "ey = max (Ey - 52) (- 1074)"
  define ux where "ux = 2 powr real_of_int ex"
  define uy where "uy = 2 powr real_of_int ey"
  from assms have y: "0 < y" by simp
  have ux: "0 < ux" and uy: "0 < uy" by (simp_all add: ux_def uy_def)
  have fx: "fl x = real_of_int (roundHalfEven (x / ux)) * ux"
    unfolding ux_def ex_def Ex_def using assms(1) by (rule fl_pos_unfold)
  have fy: "fl y = real_of_int (roundHalfEven (y / uy)) * uy"
    unfolding uy_def ey_def Ey_def using y by (rule fl_pos_unfold)
  from assms have "log 2 x \<le> log 2 y" by simp
  then have E: "Ex \<le> Ey" unfolding Ex_def Ey_def by (rule floor_mono)
  then have e: "ex \<le> ey" by (simp add: ex_def ey_def)
  show ?thesis
  proof (cases "ex = ey")
    case True
    then have "ux = uy" by (simp add: ux_def uy_def)
    moreover from assms uy have "x / uy \<le> y / uy" by (simp add: divide_right_mono)
    then have "roundHalfEven (x / uy) \<le> roundHalfEven (y / uy)" by (rule roundHalfEven_mono)
    ultimately show ?thesis unfolding fx fy using uy by (simp add: mult_right_mono)
  next
    case False
    with e have lt: "ex < ey" by simp
    then have eyE: "ey = Ey - 52" by (auto simp: ex_def ey_def max_def split: if_splits)
    have "Ex - 52 \<le> ex" by (simp add: ex_def)
    with lt eyE have ExEy: "Ex + 1 \<le> Ey" by simp
    \<comment> \<open>the upper value is at least \<open>2 powr Ey\<close>\<close>
    have "2 powr real_of_int Ey \<le> y" unfolding Ey_def using y by (rule binade)
    then have "2 powr real_of_int Ey / uy \<le> y / uy" using uy by (simp add: divide_right_mono)
    moreover have "2 powr real_of_int Ey / uy = 2 powr real_of_int (Ey - ey)"
      unfolding uy_def by (rule two_powr_diff)
    moreover have "2 powr real_of_int (Ey - ey) = real_of_int (2 ^ nat (Ey - ey))"
      by (rule two_powr_int) (simp add: eyE)
    ultimately have "real_of_int (2 ^ nat (Ey - ey)) \<le> y / uy" by simp
    then have "2 ^ nat (Ey - ey) \<le> roundHalfEven (y / uy)" by (rule roundHalfEven_ge_int)
    then have "real_of_int (2 ^ nat (Ey - ey)) * uy \<le> fl y"
      unfolding fy using uy by (simp only: mult_right_mono of_int_le_iff less_imp_le)
    moreover have "real_of_int (2 ^ nat (Ey - ey)) * uy = 2 powr real_of_int Ey"
    proof -
      have "2 powr real_of_int (Ey - ey) * 2 powr real_of_int ey = 2 powr real_of_int Ey"
        by (simp add: powr_add [symmetric])
      then show ?thesis
        unfolding uy_def \<open>2 powr real_of_int (Ey - ey) = real_of_int (2 ^ nat (Ey - ey))\<close> .
    qed
    ultimately have low: "2 powr real_of_int Ey \<le> fl y" by simp
    \<comment> \<open>the lower value is at most \<open>2 powr Ey\<close>\<close>
    have "x < 2 powr real_of_int (Ex + 1)" unfolding Ex_def using assms(1) by (rule binade)
    also have "\<dots> \<le> 2 powr real_of_int Ey" using ExEy by simp
    finally have "x / ux \<le> 2 powr real_of_int Ey / ux"
      using ux by (simp add: divide_right_mono)
    moreover have "2 powr real_of_int Ey / ux = 2 powr real_of_int (Ey - ex)"
      unfolding ux_def by (rule two_powr_diff)
    moreover have p: "2 powr real_of_int (Ey - ex) = real_of_int (2 ^ nat (Ey - ex))"
      by (rule two_powr_int) (use lt eyE in simp)
    ultimately have "x / ux \<le> real_of_int (2 ^ nat (Ey - ex))" by simp
    then have "roundHalfEven (x / ux) \<le> 2 ^ nat (Ey - ex)" by (rule roundHalfEven_le_int)
    then have "fl x \<le> real_of_int (2 ^ nat (Ey - ex)) * ux"
      unfolding fx using ux by (simp only: mult_right_mono of_int_le_iff less_imp_le)
    moreover have "real_of_int (2 ^ nat (Ey - ex)) * ux = 2 powr real_of_int Ey"
    proof -
      have "2 powr real_of_int (Ey - ex) * 2 powr real_of_int ex = 2 powr real_of_int Ey"
        by (simp add: powr_add [symmetric])
      then show ?thesis unfolding ux_def p .
    qed
    ultimately have "fl x \<le> 2 powr real_of_int Ey" by simp
    with low show ?thesis by linarith
  qed
qed

lemma fl_mono:
  assumes "0 \<le> x" "x \<le> y"
  shows "fl x \<le> fl y"
proof (cases "x = 0")
  case True
  with assms fl_nonneg [of y] show ?thesis by (simp add: fl_zero)
next
  case False
  with assms have "0 < x" by simp
  then show ?thesis using assms(2) by (rule fl_mono_pos)
qed

lemma fl_between:
  assumes "0 \<le> lo" "lo \<le> x" "x \<le> hi" "fl lo = lo" "fl hi = hi"
  shows "lo \<le> fl x \<and> fl x \<le> hi"
proof -
  from assms have "fl lo \<le> fl x" by (intro fl_mono) simp_all
  moreover from assms have "fl x \<le> fl hi" by (intro fl_mono) simp_all
  ultimately show ?thesis using assms by simp
qed

text \<open>Evaluation of \<open>fl\<close> for an argument in a known binade.\<close>

lemma two_powr_nat: "2 powr real_of_int (int n) = 2 ^ n"
  by (simp add: powr_realpow)

lemma two_powr_nat_diff: "2 powr real_of_int (int a - int n) = 2 ^ a / 2 ^ n"
proof -
  have "2 powr real_of_int (int a - int n)
      = 2 powr real_of_int (int a) / 2 powr real_of_int (int n)"
    by (simp only: two_powr_diff)
  then show ?thesis unfolding two_powr_nat .
qed

lemma fl_eval_coarse:
  assumes "2 ^ (52 + n) \<le> \<bar>x\<bar>" "\<bar>x\<bar> < 2 ^ (53 + n)"
  shows "fl x = real_of_int (roundHalfEven (x / 2 ^ n)) * 2 ^ n"
proof -
  have "(0::real) < 2 ^ (52 + n)" by simp
  with assms(1) have ax: "0 < \<bar>x\<bar>" by linarith
  then have nz: "x \<noteq> 0" by simp
  have "\<lfloor>log 2 \<bar>x\<bar>\<rfloor> = int (52 + n)"
  proof (rule binade_unique [OF ax])
    show "2 powr real_of_int (int (52 + n)) \<le> \<bar>x\<bar>"
      unfolding two_powr_nat by (rule assms(1))
    have "int (52 + n) + 1 = int (53 + n)" by simp
    then show "\<bar>x\<bar> < 2 powr real_of_int (int (52 + n) + 1)"
      unfolding two_powr_nat by (simp only: two_powr_nat assms(2))
  qed
  then have "max (\<lfloor>log 2 \<bar>x\<bar>\<rfloor> - 52) (- 1074) = int n" by simp
  then show ?thesis using nz by (simp only: fl_def Let_def two_powr_nat if_False)
qed

lemma fl_eval_fine:
  assumes "2 ^ 52 \<le> \<bar>x\<bar> * 2 ^ n" "\<bar>x\<bar> * 2 ^ n < 2 ^ 53" "n \<le> 1074"
  shows "fl x = real_of_int (roundHalfEven (x * 2 ^ n)) / 2 ^ n"
proof -
  have "(0::real) < 2 ^ 52" by simp
  with assms(1) have "0 < \<bar>x\<bar> * 2 ^ n" by linarith
  then have ax: "0 < \<bar>x\<bar>" by (simp add: zero_less_mult_iff)
  then have nz: "x \<noteq> 0" by simp
  have p0: "2 powr real_of_int (int 0 - int n) = 1 / 2 ^ n"
    unfolding two_powr_nat_diff by simp
  have "\<lfloor>log 2 \<bar>x\<bar>\<rfloor> = int 52 - int n"
  proof (rule binade_unique [OF ax])
    show "2 powr real_of_int (int 52 - int n) \<le> \<bar>x\<bar>"
      unfolding two_powr_nat_diff using assms(1) by (simp add: pos_divide_le_eq)
    have "int 52 - int n + 1 = int 53 - int n" by simp
    then show "\<bar>x\<bar> < 2 powr real_of_int (int 52 - int n + 1)"
      using assms(2) by (simp only: two_powr_nat_diff) (simp add: pos_less_divide_eq)
  qed
  with assms(3) have "max (\<lfloor>log 2 \<bar>x\<bar>\<rfloor> - 52) (- 1074) = int 0 - int n" by simp
  then have "fl x = real_of_int (roundHalfEven (x / (1 / 2 ^ n))) * (1 / 2 ^ n)"
    using nz by (simp only: fl_def Let_def p0 if_False)
  then show ?thesis by simp
qed

section \<open>Theorems: pricing model\<close>




text \<open>
  C4: with \<open>daysToExpiry \<le> 0\<close> the quote is the intrinsic value, with delta 1 or 0 for
  a call and -1 or 0 for a put by moneyness, and gamma, theta and vega 0; the volatility,
  the rate and the random draw have no part in it, so the Black-Scholes values are not
  computed.
\<close>

theorem expired_option_is_intrinsic:
  assumes "daysToExpiry \<le> 0"
  shows "calculateOptionPrice S K daysToExpiry \<sigma> r isCall u =
           \<lparr>price = (if isCall then max (S - K) 0 else max (K - S) 0),
            greeks = \<lparr>delta = (if isCall then (if S > K then 1 else 0)
                               else (if S < K then - 1 else 0)),
                      gamma = 0, theta = 0, vega = 0\<rparr>\<rparr>
       \<and> (isCall \<longrightarrow> delta (greeks (calculateOptionPrice S K daysToExpiry \<sigma> r isCall u)) \<in> {0, 1})
       \<and> (\<not> isCall \<longrightarrow> delta (greeks (calculateOptionPrice S K daysToExpiry \<sigma> r isCall u)) \<in> {0, - 1})
       \<and> calculateOptionPrice S K daysToExpiry \<sigma> r isCall u
           = calculateOptionPrice S K daysToExpiry \<sigma>' r' isCall u'"
  using assms by (simp add: calculateOptionPrice_def Let_def)

text \<open>C4, for a call in the money at expiry and a put out of the money after it.\<close>

theorem expired_option_is_intrinsic_witness:
  "(0::real) \<le> 0
   \<and> price (calculateOptionPrice 100 90 0 0.25 0.05 True 0.5) = 10
   \<and> delta (greeks (calculateOptionPrice 100 90 0 0.25 0.05 True 0.5)) = 1
   \<and> price (calculateOptionPrice 100 90 (- 3) 0.25 0.05 False 0.5) = 0
   \<and> delta (greeks (calculateOptionPrice 100 90 (- 3) 0.25 0.05 False 0.5)) = 0"
  using expired_option_is_intrinsic [where daysToExpiry = 0 and S = 100 and K = 90
      and \<sigma> = "0.25" and r = "0.05" and isCall = True and u = "0.5"]
    expired_option_is_intrinsic [where daysToExpiry = "- 3" and S = 100 and K = 90
      and \<sigma> = "0.25" and r = "0.05" and isCall = False and u = "0.5"]
  by simp

text \<open>
  The approximation \<open>erf\<close> is odd away from 0. At 0 it takes the sign \<open>+1\<close> and returns
  1 minus the sum of its five coefficients, which is one billionth, not 0.
\<close>

lemma erf_zero: "erf 0 = 1 / 1000000000"
  by (simp add: erf_def Let_def)

lemma erf_neg: "x \<noteq> 0 \<Longrightarrow> erf (- x) = - erf x"
  by (simp add: erf_def Let_def)

lemma cdf_sum: "cdf x + cdf (- x) = (if x = 0 then 1 + 1 / 1000000000 else 1)"
proof (cases "x = 0")
  case True
  then show ?thesis by (simp add: cdf_def erf_zero)
next
  case False
  then have "x / sqrt 2 \<noteq> 0" by simp
  then have "erf (- (x / sqrt 2)) = - erf (x / sqrt 2)" by (rule erf_neg)
  with False show ?thesis by (simp add: cdf_def field_simps)
qed

lemma d1_at_the_money: "bs_d1 100 100 (365 / 365) 0.02 0.2 = 0.2"
  by (simp add: bs_d1_def)

lemma d2_at_the_money: "bs_d2 100 100 (365 / 365) 0.02 0.2 = 0"
  by (simp add: bs_d2_def bs_d1_def)

text \<open>
  C5, as stated, fails: at spot 100, strike 100, 365 days, volatility 0.2 and rate 0.02
  the value \<open>d2\<close> is 0, where \<open>N(0) + N(-0)\<close> is not 1, and the call price minus the put
  price is not \<open>S - K * exp (- r * T)\<close>.
\<close>

theorem put_call_parity_counterexample:
  "bs_price 100 100 (365 / 365) 0.02 0.2 True - bs_price 100 100 (365 / 365) 0.02 0.2 False
     \<noteq> 100 - 100 * exp (- 0.02 * (365 / 365))"
proof -
  have e: "exp (- (1 / 50 :: real)) > 0" by simp
  have "bs_price 100 100 (365 / 365) 0.02 0.2 True - bs_price 100 100 (365 / 365) 0.02 0.2 False
      = 100 * (cdf 0.2 + cdf (- 0.2)) - 100 * exp (- 0.02 * (365 / 365)) * (cdf 0 + cdf (- 0))"
    unfolding bs_price_def d1_at_the_money d2_at_the_money by (simp add: algebra_simps)
  also have "\<dots> = 100 - 100 * exp (- 0.02 * (365 / 365)) * (1 + 1 / 1000000000)"
    unfolding cdf_sum by simp
  finally have eq: "bs_price 100 100 (365 / 365) 0.02 0.2 True
      - bs_price 100 100 (365 / 365) 0.02 0.2 False
      = 100 - 100 * exp (- 0.02 * (365 / 365)) * (1 + 1 / 1000000000)" .
  have neq: "100 - 100 * exp (- 0.02 * (365 / 365)) * (1 + 1 / 1000000000)
      \<noteq> (100::real) - 100 * exp (- 0.02 * (365 / 365))"
    using e by simp
  show ?thesis unfolding eq by (rule neq)
qed

text \<open>
  The same gap at an input whose values are exact in doubles too: spot 100, strike 100,
  365 days, volatility 0.5 and rate 0.125, where \<open>d1\<close> is 0.5 and \<open>d2\<close> is 0.
\<close>

lemma d1_dyadic: "bs_d1 100 100 (365 / 365) 0.125 0.5 = 0.5"
  by (simp add: bs_d1_def)

lemma d2_dyadic: "bs_d2 100 100 (365 / 365) 0.125 0.5 = 0"
  by (simp add: bs_d2_def bs_d1_def)

lemma put_call_gap_dyadic:
  "bs_price 100 100 (365 / 365) 0.125 0.5 True - bs_price 100 100 (365 / 365) 0.125 0.5 False
     = 100 - 100 * exp (- 0.125 * (365 / 365)) * (1 + 1 / 1000000000)"
proof -
  have "bs_price 100 100 (365 / 365) 0.125 0.5 True - bs_price 100 100 (365 / 365) 0.125 0.5 False
      = 100 * (cdf 0.5 + cdf (- 0.5)) - 100 * exp (- 0.125 * (365 / 365)) * (cdf 0 + cdf (- 0))"
    unfolding bs_price_def d1_dyadic d2_dyadic by (simp add: algebra_simps)
  also have "\<dots> = 100 - 100 * exp (- 0.125 * (365 / 365)) * (1 + 1 / 1000000000)"
    unfolding cdf_sum by simp
  finally show ?thesis .
qed

text \<open>
  C5 (amended): for spot, strike, days to expiry and volatility above 0 and every rate,
  the call price minus the put price, both before the market adjustment, is
  \<open>S * c1 - K * exp (- r * T) * c2\<close>, where \<open>c1\<close> is 1 when \<open>d1\<close> is not 0 and one plus a
  billionth when it is, and \<open>c2\<close> the same for \<open>d2\<close>. So put-call parity holds exactly
  whenever neither \<open>d1\<close> nor \<open>d2\<close> is 0.
\<close>

theorem put_call_parity:
  assumes "0 < S" "0 < K" "0 < daysToExpiry" "0 < \<sigma>"
  shows "bs_price S K (daysToExpiry / 365) r \<sigma> True - bs_price S K (daysToExpiry / 365) r \<sigma> False
       = S * (if bs_d1 S K (daysToExpiry / 365) r \<sigma> = 0 then 1 + 1 / 1000000000 else 1)
         - K * exp (- r * (daysToExpiry / 365))
           * (if bs_d2 S K (daysToExpiry / 365) r \<sigma> = 0 then 1 + 1 / 1000000000 else 1)"
proof -
  let ?T = "daysToExpiry / 365"
  let ?a = "bs_d1 S K ?T r \<sigma>" and ?b = "bs_d2 S K ?T r \<sigma>"
  have "bs_price S K ?T r \<sigma> True - bs_price S K ?T r \<sigma> False
      = S * (cdf ?a + cdf (- ?a)) - K * exp (- r * ?T) * (cdf ?b + cdf (- ?b))"
    by (simp add: bs_price_def algebra_simps)
  then show ?thesis by (simp only: cdf_sum)
qed

text \<open>
  C5 (amended), at spot 100, strike 100, 365 days, volatility 0.2 and rate 0, where
  \<open>d1\<close> is 0.1 and \<open>d2\<close> is -0.1: parity holds exactly.
\<close>

theorem put_call_parity_witness:
  "(0::real) < 100 \<and> (0::real) < 365 \<and> (0::real) < 0.2
   \<and> bs_price 100 100 (365 / 365) 0 0.2 True - bs_price 100 100 (365 / 365) 0 0.2 False
       = 100 - 100 * exp (- 0 * (365 / 365))"
  using put_call_parity [where S = 100 and K = 100 and daysToExpiry = 365
      and \<sigma> = "0.2" and r = 0]
  by (simp add: bs_d1_def bs_d2_def)



section \<open>Theorems: sorting\<close>

text \<open>
  For a comparator that compares a real key, \<open>Array_sort\<close> is the stable insertion sort
  by that key.
\<close>

lemma insert_cmp_insort_key:
  assumes "\<And>a b. cmp a b \<le> 0 \<longleftrightarrow> key a \<le> (key b :: real)"
  shows "insert_cmp cmp x ys = insort_key key x ys"
  by (induction ys) (simp_all add: assms)

lemma Array_sort_sort_key:
  assumes "\<And>a b. cmp a b \<le> 0 \<longleftrightarrow> key a \<le> (key b :: real)"
  shows "Array_sort cmp xs = sort_key key xs"
proof -
  have "insert_cmp cmp = insort_key key"
    by (intro ext) (rule insert_cmp_insort_key [OF assms])
  then show ?thesis by (simp add: Array_sort_def sort_key_def)
qed

lemma sort_by_confidence:
  "Array_sort (\<lambda>a b. confidence b - confidence a) xs = sort_key (\<lambda>s. - confidence s) xs"
  by (rule Array_sort_sort_key) simp

lemma sort_ascending:
  "Array_sort (\<lambda>a b. a - b) xs = sort_key (\<lambda>x. x) (xs :: real list)"
  by (rule Array_sort_sort_key) simp

lemma ranked_descending:
  "sorted_wrt (\<lambda>a b. confidence a \<ge> confidence b)
     (Array_sort (\<lambda>a b. confidence b - confidence a) xs)"
proof -
  have "sorted (map (\<lambda>s. - confidence s) (sort_key (\<lambda>s. - confidence s) xs))"
    by (rule sorted_sort_key)
  then show ?thesis
    by (simp add: sort_by_confidence sorted_map)
qed

lemma ranked_stable:
  "filter (\<lambda>s. confidence s = c) (Array_sort (\<lambda>a b. confidence b - confidence a) xs)
     = filter (\<lambda>s. confidence s = c) xs"
proof -
  have "filter (\<lambda>s. - confidence s = - c) (sort_key (\<lambda>s. - confidence s) xs)
      = filter (\<lambda>s. - confidence s = - c) xs"
    by (rule sort_key_stable)
  then show ?thesis by (simp add: sort_by_confidence)
qed

lemma ranked_mset:
  "mset (Array_sort (\<lambda>a b. confidence b - confidence a) xs) = mset xs"
  by (simp add: sort_by_confidence)

lemma sorted_wrt_take: "sorted_wrt R xs \<Longrightarrow> sorted_wrt R (take n xs)"
  by (metis append_take_drop_id sorted_wrt_append)

section \<open>Theorems: risk profile filter and ranking\<close>

lemma exampleStrategy_fields:
  "confidence (exampleStrategy n ty c) = c" "stype (exampleStrategy n ty c) = ty"
  "name (exampleStrategy n ty c) = n"
  by (simp_all add: exampleStrategy_def)

text \<open>
  C2, as stated, fails for a negative \<open>maxStrategies\<close>. With two strategies that pass
  the filter and \<open>maxStrategies = -1\<close>, \<open>slice(0, -1)\<close> returns the ranked list without
  its last entry: one strategy, the one of confidence 75. That is not the first
  \<open>maxStrategies\<close> entries of the ranked list (there are none), and its length is not
  at most \<open>maxStrategies\<close>.
\<close>

theorem conservative_selection_counterexample:
  "map name (handlerStrategies
        [exampleStrategy ''A'' ''bullish'' 70, exampleStrategy ''B'' ''neutral'' 75]
        ''conservative'' (Some (- 1))) = [''B'']
   \<and> handlerStrategies
        [exampleStrategy ''A'' ''bullish'' 70, exampleStrategy ''B'' ''neutral'' 75]
        ''conservative'' (Some (- 1))
       \<noteq> take (nat (- 1)) (Array_sort (\<lambda>a b. confidence b - confidence a)
            (filter (\<lambda>s. confidence s \<ge> 65 \<and> stype s \<noteq> ''volatility'')
               [exampleStrategy ''A'' ''bullish'' 70, exampleStrategy ''B'' ''neutral'' 75]))
   \<and> \<not> int (length (handlerStrategies
        [exampleStrategy ''A'' ''bullish'' 70, exampleStrategy ''B'' ''neutral'' 75]
        ''conservative'' (Some (- 1)))) \<le> - 1"
  by (simp add: handlerStrategies_def Array_slice0_def Array_sort_def exampleStrategy_fields)

text \<open>
  C2 (amended): for the conservative profile the returned list is cut from the list
  \<open>ranked\<close> that holds exactly the strategies with confidence at least 65 and a type
  other than volatility, sorted non-increasing by confidence, ties in their order of
  arrival. For \<open>maxStrategies \<ge> 0\<close> it is the first \<open>maxStrategies\<close> entries of
  \<open>ranked\<close>, and so has at most \<open>maxStrategies\<close> entries; for \<open>maxStrategies < 0\<close> it
  is \<open>ranked\<close> without its last \<open>- maxStrategies\<close> entries. In both cases it is sorted
  non-increasing by confidence and holds no volatility strategy. A request without
  \<open>maxStrategies\<close> is served as with 5.
\<close>

theorem conservative_selection:
  "(\<exists>ranked.
      mset ranked = mset (filter (\<lambda>s. confidence s \<ge> 65 \<and> stype s \<noteq> ''volatility'') allStrategies)
    \<and> sorted_wrt (\<lambda>a b. confidence a \<ge> confidence b) ranked
    \<and> (\<forall>c. filter (\<lambda>s. confidence s = c) ranked
           = filter (\<lambda>s. confidence s = c)
               (filter (\<lambda>s. confidence s \<ge> 65 \<and> stype s \<noteq> ''volatility'') allStrategies))
    \<and> handlerStrategies allStrategies ''conservative'' (Some m)
        = take (if 0 \<le> m then nat m else length ranked - nat (- m)) ranked)
   \<and> sorted_wrt (\<lambda>a b. confidence a \<ge> confidence b)
       (handlerStrategies allStrategies ''conservative'' (Some m))
   \<and> (\<forall>s \<in> set (handlerStrategies allStrategies ''conservative'' (Some m)).
         s \<in> set allStrategies \<and> confidence s \<ge> 65 \<and> stype s \<noteq> ''volatility'')
   \<and> (0 \<le> m \<longrightarrow> int (length (handlerStrategies allStrategies ''conservative'' (Some m))) \<le> m)
   \<and> handlerStrategies allStrategies ''conservative'' None
       = handlerStrategies allStrategies ''conservative'' (Some 5)"
proof -
  let ?kept = "filter (\<lambda>s. confidence s \<ge> 65 \<and> stype s \<noteq> ''volatility'') allStrategies"
  let ?ranked = "Array_sort (\<lambda>a b. confidence b - confidence a) ?kept"
  let ?out = "handlerStrategies allStrategies ''conservative'' (Some m)"
  let ?n = "if 0 \<le> m then nat m else length ?ranked - nat (- m)"
  have out: "?out = take ?n ?ranked"
  proof (cases "0 \<le> m")
    case True
    then show ?thesis by (simp add: handlerStrategies_def Array_slice0_def)
  next
    case False
    then have "nat (int (length ?ranked) + m) = length ?ranked - nat (- m)" by linarith
    with False show ?thesis by (simp add: handlerStrategies_def Array_slice0_def Let_def)
  qed
  have srt: "sorted_wrt (\<lambda>a b. confidence a \<ge> confidence b) ?ranked"
    by (rule ranked_descending)
  have ex: "\<exists>ranked. mset ranked = mset ?kept
          \<and> sorted_wrt (\<lambda>a b. confidence a \<ge> confidence b) ranked
          \<and> (\<forall>c. filter (\<lambda>s. confidence s = c) ranked = filter (\<lambda>s. confidence s = c) ?kept)
          \<and> ?out = take (if 0 \<le> m then nat m else length ranked - nat (- m)) ranked"
  proof (intro exI [of _ ?ranked] conjI allI)
    show "mset ?ranked = mset ?kept" by (rule ranked_mset)
    show "sorted_wrt (\<lambda>a b. confidence a \<ge> confidence b) ?ranked" by (rule srt)
    show "filter (\<lambda>s. confidence s = c) ?ranked = filter (\<lambda>s. confidence s = c) ?kept" for c
      by (rule ranked_stable)
    show "?out = take ?n ?ranked" by (rule out)
  qed
  have sorted_out: "sorted_wrt (\<lambda>a b. confidence a \<ge> confidence b) ?out"
    unfolding out using srt by (rule sorted_wrt_take)
  have "set ?out \<subseteq> set ?ranked"
    unfolding out by (rule set_take_subset)
  moreover have "set ?ranked = set ?kept"
    by (simp add: sort_by_confidence)
  ultimately have "set ?out \<subseteq> set ?kept" by simp
  then have members: "\<forall>s \<in> set ?out.
      s \<in> set allStrategies \<and> confidence s \<ge> 65 \<and> stype s \<noteq> ''volatility''"
    by (intro ballI) (drule subsetD, assumption, simp)
  have len: "0 \<le> m \<longrightarrow> int (length ?out) \<le> m"
    unfolding out by (auto simp: min_def)
  have dflt: "handlerStrategies allStrategies ''conservative'' None
           = handlerStrategies allStrategies ''conservative'' (Some 5)"
    by (simp add: handlerStrategies_def)
  show ?thesis
    by (intro conjI) (rule ex sorted_out members len dflt)+
qed

text \<open>
  C2 (amended), for five strategies, three of which pass the filter, with
  \<open>maxStrategies = 2\<close> and with \<open>maxStrategies = -1\<close>.
\<close>

theorem conservative_selection_witness:
  "(0::int) \<le> 2
   \<and> map name (handlerStrategies
        [exampleStrategy ''A'' ''bullish'' 70, exampleStrategy ''V'' ''volatility'' 80,
         exampleStrategy ''B'' ''neutral'' 75, exampleStrategy ''C'' ''bearish'' 64,
         exampleStrategy ''D'' ''bullish'' 66]
        ''conservative'' (Some 2)) = [''B'', ''A'']
   \<and> int (length (handlerStrategies
        [exampleStrategy ''A'' ''bullish'' 70, exampleStrategy ''V'' ''volatility'' 80,
         exampleStrategy ''B'' ''neutral'' 75, exampleStrategy ''C'' ''bearish'' 64,
         exampleStrategy ''D'' ''bullish'' 66]
        ''conservative'' (Some 2))) \<le> 2
   \<and> map name (handlerStrategies
        [exampleStrategy ''A'' ''bullish'' 70, exampleStrategy ''V'' ''volatility'' 80,
         exampleStrategy ''B'' ''neutral'' 75, exampleStrategy ''C'' ''bearish'' 64,
         exampleStrategy ''D'' ''bullish'' 66]
        ''conservative'' (Some (- 1))) = [''B'', ''A'']"
  using conservative_selection [of "[exampleStrategy ''A'' ''bullish'' 70,
         exampleStrategy ''V'' ''volatility'' 80,
         exampleStrategy ''B'' ''neutral'' 75, exampleStrategy ''C'' ''bearish'' 64,
         exampleStrategy ''D'' ''bullish'' 66]" 2]
  by (simp add: handlerStrategies_def Array_slice0_def Array_sort_def exampleStrategy_fields)

section \<open>Theorems: strike ladder\<close>

text \<open>
  For a spot above 0 and at most \<open>9 * 10 ^ 15\<close> every number of the ladder is an
  integer, or an integer plus one half, that a double holds exactly, so no operation of
  \<open>generateStrikes\<close> rounds but the division, and the ladder is the list of the
  multiples \<open>j * interval\<close> for \<open>j\<close> from \<open>max 1 (k - 6)\<close> to \<open>k + 6\<close>, where \<open>k\<close> is
  the rounded quotient.
\<close>

lemma interval_pos: "0 < strike_interval p"
  by (simp add: strike_interval_def)

lemma interval_half:
  "\<exists>m::int. 2 * strike_interval p = real_of_int m \<and> 0 < m \<and> m \<le> 50"
proof (intro exI conjI)
  let ?m = "if p < 50 then 5 else if p < 200 then 10 else if p < 500 then 20 else (50::int)"
  show "2 * strike_interval p = real_of_int ?m" by (simp add: strike_interval_def)
  show "0 < ?m" by simp
  show "?m \<le> 50" by simp
qed

lemma ladder_index_bounds:
  assumes "0 < spot" "spot \<le> 9 * 10 ^ 15"
  shows "0 \<le> Math_round (fl (spot / strike_interval spot))"
    and "Math_round (fl (spot / strike_interval spot)) \<le> 36 * 10 ^ 13"
    and "strike_interval spot \<noteq> 25 \<Longrightarrow> Math_round (fl (spot / strike_interval spot)) \<le> 200"
proof -
  let ?I = "strike_interval spot"
  let ?q = "spot / ?I"
  have I: "0 < ?I" by (rule interval_pos)
  with assms have q0: "0 \<le> ?q" by simp
  then have "0 \<le> fl ?q" by (rule fl_nonneg)
  then show "0 \<le> Math_round (fl ?q)" by (simp add: Math_round_def)
  have small: "?q < 200" if "spot < 500"
  proof -
    have "5 / 2 \<le> ?I" by (simp add: strike_interval_def)
    with that I have "spot < 200 * ?I" by simp
    with I show ?thesis by (simp add: field_simps)
  qed
  have round_le: "Math_round (fl ?q) \<le> n" if "?q \<le> real_of_int n" "\<bar>real_of_int n\<bar> < 2 ^ 52" for n
  proof -
    have "fl (real_of_int n) = real_of_int n" using that(2) by (rule fl_integer)
    with fl_mono [OF q0 that(1)] have "fl ?q \<le> real_of_int n" by simp
    then have "fl ?q + 1 / 2 < real_of_int (n + 1)" by simp
    then have "\<lfloor>fl ?q + 1 / 2\<rfloor> < n + 1" by (simp only: floor_less_iff)
    then show ?thesis by (simp add: Math_round_def)
  qed
  have "?q \<le> real_of_int (36 * 10 ^ 13)"
  proof (cases "spot < 500")
    case True
    with small show ?thesis by simp
  next
    case False
    then have "?I = 25" by (simp add: strike_interval_def)
    with assms(2) show ?thesis by simp
  qed
  then show "Math_round (fl ?q) \<le> 36 * 10 ^ 13" by (rule round_le) simp
  show "Math_round (fl ?q) \<le> 200" if "?I \<noteq> 25"
  proof -
    from that have "spot < 500" by (simp add: strike_interval_def split: if_splits)
    with small have "?q \<le> real_of_int 200" by simp
    then show ?thesis by (rule round_le) simp
  qed
qed

lemma exact_multiple:
  assumes "\<bar>j\<bar> \<le> 36 * 10 ^ 13 + 6" "strike_interval p \<noteq> 25 \<Longrightarrow> \<bar>j\<bar> \<le> 206"
  shows "fl (real_of_int j * strike_interval p) = real_of_int j * strike_interval p"
proof (cases "strike_interval p = 25")
  case True
  show ?thesis
  proof (rule fl_exact [where m = "j * 25" and k = 0])
    show "real_of_int j * strike_interval p = real_of_int (j * 25) * 2 powr real_of_int 0"
      using True by simp
    from assms(1) have "\<bar>j * 25\<bar> \<le> (36 * 10 ^ 13 + 6) * 25" by (simp add: abs_mult)
    also have "\<dots> < 2 ^ 53" by simp
    finally show "\<bar>j * 25\<bar> < 2 ^ 53" .
  qed simp
next
  case False
  obtain m :: int where m: "2 * strike_interval p = real_of_int m" "0 < m" "m \<le> 50"
    using interval_half by blast
  have I: "0 < strike_interval p" "strike_interval p \<le> 25"
    by (simp_all add: strike_interval_def)
  from assms(2) [OF False] have j: "\<bar>j\<bar> \<le> 206" .
  show ?thesis
  proof (rule fl_half_integer [where m = "j * m"])
    show "2 * (real_of_int j * strike_interval p) = real_of_int (j * m)"
      using m(1) by (simp add: algebra_simps)
    have "\<bar>real_of_int j * strike_interval p\<bar> = real_of_int \<bar>j\<bar> * strike_interval p"
      using I by (simp add: abs_mult)
    also have "\<dots> \<le> real_of_int \<bar>j\<bar> * 25"
      using I by (intro mult_left_mono) simp_all
    also have "\<dots> \<le> 206 * 25"
    proof -
      from j have "real_of_int \<bar>j\<bar> \<le> real_of_int 206" by (simp only: of_int_le_iff)
      then show ?thesis by simp
    qed
    also have "\<dots> < 2 ^ 52" by simp
    finally show "\<bar>real_of_int j * strike_interval p\<bar> < 2 ^ 52" .
  qed
qed

lemma exact_strike:
  assumes "0 \<le> k" "k \<le> 36 * 10 ^ 13" "strike_interval p \<noteq> 25 \<Longrightarrow> k \<le> 200"
    and "- 6 \<le> i" "i \<le> 6"
  shows "fl (fl (real_of_int k * strike_interval p) + fl (real_of_int i * strike_interval p))
       = real_of_int (k + i) * strike_interval p"
proof -
  have a: "fl (real_of_int k * strike_interval p) = real_of_int k * strike_interval p"
    using assms by (intro exact_multiple) simp_all
  have b: "fl (real_of_int i * strike_interval p) = real_of_int i * strike_interval p"
    using assms by (intro exact_multiple) simp_all
  have c: "fl (real_of_int (k + i) * strike_interval p) = real_of_int (k + i) * strike_interval p"
  proof (rule exact_multiple)
    from assms show "\<bar>k + i\<bar> \<le> 36 * 10 ^ 13 + 6" by simp
    show "\<bar>k + i\<bar> \<le> 206" if "strike_interval p \<noteq> 25"
      using assms(3) [OF that] assms(1,4,5) by simp
  qed
  have "real_of_int k * strike_interval p + real_of_int i * strike_interval p
      = real_of_int (k + i) * strike_interval p"
    by (simp add: algebra_simps)
  then show ?thesis by (simp only: a b c)
qed

lemma map_shift_upto: "map (\<lambda>i. k + i) [a .. b] = [k + a .. k + (b :: int)]"
proof (induction a b rule: upto.induct)
  case (1 i j)
  show ?case
  proof (cases "i \<le> j")
    case True
    then have "[i .. j] = i # [i + 1 .. j]" by (simp add: upto.simps)
    moreover from True have "[k + i .. k + j] = (k + i) # [k + i + 1 .. k + j]"
      by (simp add: upto.simps)
    ultimately show ?thesis using 1 True by (simp add: add.assoc)
  next
    case False
    then show ?thesis by simp
  qed
qed

lemma filter_pos_upto: "filter (\<lambda>j. 0 < j) [a .. b] = [max 1 a .. (b :: int)]"
proof (induction a b rule: upto.induct)
  case (1 i j)
  show ?case
  proof (cases "i \<le> j")
    case True
    then have u: "[i .. j] = i # [i + 1 .. j]" by (simp add: upto.simps)
    show ?thesis
    proof (cases "0 < i")
      case pos: True
      then have "max 1 i = i" "max 1 (i + 1) = i + 1" by simp_all
      with 1 True pos u show ?thesis by simp
    next
      case npos: False
      then have "max 1 i = 1" "max 1 (i + 1) = 1" by simp_all
      with 1 True npos u show ?thesis by simp
    qed
  next
    case False
    then have "[max 1 i .. j] = []" by simp
    with False show ?thesis by simp
  qed
qed

lemma generateStrikes_closed_form:
  assumes "0 < spot" "spot \<le> 9 * 10 ^ 15"
  shows "generateStrikes spot =
           map (\<lambda>j. real_of_int j * strike_interval spot)
             [max 1 (Math_round (fl (spot / strike_interval spot)) - 6)
               .. Math_round (fl (spot / strike_interval spot)) + 6]"
proof -
  let ?I = "strike_interval spot"
  let ?k = "Math_round (fl (spot / ?I))"
  have I: "0 < ?I" by (rule interval_pos)
  note k = ladder_index_bounds [OF assms]
  have raw: "map (\<lambda>i. fl (fl (real_of_int ?k * ?I) + fl (real_of_int i * ?I))) [- 6 .. 6]
      = map (\<lambda>j. real_of_int j * ?I) [?k - 6 .. ?k + 6]"
  proof -
    have "map (\<lambda>i. fl (fl (real_of_int ?k * ?I) + fl (real_of_int i * ?I))) [- 6 .. 6]
        = map (\<lambda>i. real_of_int (?k + i) * ?I) [- 6 .. 6]"
    proof (rule map_cong [OF refl])
      fix i :: int
      assume "i \<in> set [- 6 .. 6]"
      then have "- 6 \<le> i" "i \<le> 6" by (simp_all only: set_upto atLeastAtMost_iff)
      then show "fl (fl (real_of_int ?k * ?I) + fl (real_of_int i * ?I))
          = real_of_int (?k + i) * ?I"
        by (intro exact_strike k)
    qed
    also have "\<dots> = map (\<lambda>j. real_of_int j * ?I) (map (\<lambda>i. ?k + i) [- 6 .. 6])"
      by (simp only: map_map comp_def)
    finally show ?thesis by (simp only: map_shift_upto) simp
  qed
  have flt: "filter (\<lambda>s. s > 0) (map (\<lambda>j. real_of_int j * ?I) [?k - 6 .. ?k + 6])
      = map (\<lambda>j. real_of_int j * ?I) [max 1 (?k - 6) .. ?k + 6]"
  proof -
    have "(\<lambda>s. s > 0) \<circ> (\<lambda>j. real_of_int j * ?I) = (\<lambda>j. 0 < j)"
      using I by (auto simp: fun_eq_iff zero_less_mult_iff)
    then show ?thesis by (simp add: filter_map filter_pos_upto)
  qed
  have "sorted (map (\<lambda>j. real_of_int j * ?I) [max 1 (?k - 6) .. ?k + 6])"
    using I by (simp add: sorted_map sorted_wrt_mono_rel [OF _ sorted_upto])
  then have "sort_key (\<lambda>x. x) (map (\<lambda>j. real_of_int j * ?I) [max 1 (?k - 6) .. ?k + 6])
      = map (\<lambda>j. real_of_int j * ?I) [max 1 (?k - 6) .. ?k + 6]"
    by (rule sorted_sort_id)
  then show ?thesis
    unfolding generateStrikes_def Let_def raw flt sort_ascending .
qed

lemma generateStrikes_100:
  "generateStrikes 100 = [70, 75, 80, 85, 90, 95, 100, 105, 110, 115, 120, 125, 130]"
proof -
  have "fl (real_of_int 20) = real_of_int 20" by (rule fl_integer) simp
  then have k: "Math_round (fl 20) = 20" by (simp add: Math_round_def)
  show ?thesis
    using generateStrikes_closed_form [of 100] by (simp add: strike_interval_def k)
qed

text \<open>
  The ladder at spot \<open>10 ^ 18\<close>, where the doubles are 128 apart: the thirteen sums
  \<open>baseStrike + i * 25\<close> round to three values.
\<close>

lemma upto_m6_6: "[- 6 .. 6] = [- 6, - 5, - 4, - 3, - 2, - 1, 0, 1, 2, 3, 4, 5, 6 :: int]"
  by code_simp

lemma fl_4e16: "fl 40000000000000000 = 40000000000000000"
proof -
  have "fl 40000000000000000
      = real_of_int (roundHalfEven (40000000000000000 / 2 ^ 3)) * 2 ^ 3"
    by (rule fl_eval_coarse) simp_all
  also have "roundHalfEven (40000000000000000 / 2 ^ 3) = 5000000000000000"
    by (simp add: roundHalfEven_def Let_def)
  finally show ?thesis by simp
qed

lemma fl_near_1e18:
  assumes "\<bar>d\<bar> \<le> 150"
  shows "fl (1000000000000000000 + d)
       = real_of_int (roundHalfEven ((1000000000000000000 + d) / 128)) * 128"
proof -
  have "fl (1000000000000000000 + d)
      = real_of_int (roundHalfEven ((1000000000000000000 + d) / 2 ^ 7)) * 2 ^ 7"
    by (rule fl_eval_coarse) (use assms in simp_all)
  then show ?thesis by simp
qed

lemma fl_small_integers:
  "fl 25 = 25" "fl 50 = 50" "fl 75 = 75" "fl 100 = 100" "fl 125 = 125" "fl 150 = 150"
  "fl (- 25) = - 25" "fl (- 50) = - 50" "fl (- 75) = - 75" "fl (- 100) = - 100"
  "fl (- 125) = - 125" "fl (- 150) = - 150"
  using fl_integer [of 25] fl_integer [of 50] fl_integer [of 75] fl_integer [of 100]
    fl_integer [of 125] fl_integer [of 150] fl_integer [of "- 25"] fl_integer [of "- 50"]
    fl_integer [of "- 75"] fl_integer [of "- 100"] fl_integer [of "- 125"]
    fl_integer [of "- 150"]
  by simp_all

lemma strikes_at_1e18:
  "map (\<lambda>i. fl (1000000000000000000 + fl (real_of_int i * 25))) [- 6 .. 6]
     = [999999999999999872, 999999999999999872, 999999999999999872, 999999999999999872,
        1000000000000000000, 1000000000000000000, 1000000000000000000,
        1000000000000000000, 1000000000000000000,
        1000000000000000128, 1000000000000000128, 1000000000000000128,
        1000000000000000128]"
proof -
  have e: "fl (1000000000000000000 - 150) = 999999999999999872"
    "fl (1000000000000000000 - 125) = 999999999999999872"
    "fl (1000000000000000000 - 100) = 999999999999999872"
    "fl (1000000000000000000 - 75) = 999999999999999872"
    "fl (1000000000000000000 - 50) = 1000000000000000000"
    "fl (1000000000000000000 - 25) = 1000000000000000000"
    "fl (1000000000000000000 + 0) = 1000000000000000000"
    "fl (1000000000000000000 + 25) = 1000000000000000000"
    "fl (1000000000000000000 + 50) = 1000000000000000000"
    "fl (1000000000000000000 + 75) = 1000000000000000128"
    "fl (1000000000000000000 + 100) = 1000000000000000128"
    "fl (1000000000000000000 + 125) = 1000000000000000128"
    "fl (1000000000000000000 + 150) = 1000000000000000128"
    using fl_near_1e18 [of "- 150"] fl_near_1e18 [of "- 125"] fl_near_1e18 [of "- 100"]
      fl_near_1e18 [of "- 75"] fl_near_1e18 [of "- 50"] fl_near_1e18 [of "- 25"]
      fl_near_1e18 [of 0] fl_near_1e18 [of 25] fl_near_1e18 [of 50] fl_near_1e18 [of 75]
      fl_near_1e18 [of 100] fl_near_1e18 [of 125] fl_near_1e18 [of 150]
    by (simp_all add: roundHalfEven_def Let_def)
  show ?thesis
    unfolding upto_m6_6 using e by (simp add: fl_small_integers fl_zero)
qed

text \<open>
  C7, as stated, fails for a large spot: at spot \<open>10 ^ 18\<close> the ladder holds
  999999999999999872 four times, \<open>10 ^ 18\<close> five times and 1000000000000000128 four
  times. It is not strictly ascending, and neighbours differ by 0 or 128, not by the
  interval 25.
\<close>

theorem strike_ladder_counterexample:
  "generateStrikes (10 ^ 18)
     = [999999999999999872, 999999999999999872, 999999999999999872, 999999999999999872,
        1000000000000000000, 1000000000000000000, 1000000000000000000,
        1000000000000000000, 1000000000000000000,
        1000000000000000128, 1000000000000000128, 1000000000000000128,
        1000000000000000128]
   \<and> \<not> sorted_wrt (<) (generateStrikes (10 ^ 18))
   \<and> generateStrikes (10 ^ 18) ! Suc 0 - generateStrikes (10 ^ 18) ! 0 \<noteq> strike_interval (10 ^ 18)"
proof -
  have I: "strike_interval 1000000000000000000 = 25" by (simp add: strike_interval_def)
  have q: "1000000000000000000 / 25 = (40000000000000000::real)" by simp
  have k: "Math_round (fl 40000000000000000) = 40000000000000000"
    by (simp add: fl_4e16 Math_round_def)
  have kb: "real_of_int 40000000000000000 * 25 = 1000000000000000000" by simp
  have b: "fl 1000000000000000000 = 1000000000000000000"
    using fl_near_1e18 [of 0] by (simp add: roundHalfEven_def Let_def)
  have "generateStrikes 1000000000000000000
     = Array_sort (\<lambda>a b. a - b) (filter (\<lambda>s. s > 0)
       [999999999999999872, 999999999999999872, 999999999999999872, 999999999999999872,
        1000000000000000000, 1000000000000000000, 1000000000000000000,
        1000000000000000000, 1000000000000000000,
        1000000000000000128, 1000000000000000128, 1000000000000000128,
        1000000000000000128])"
    by (simp only: generateStrikes_def Let_def I q k kb b strikes_at_1e18)
  also have "\<dots>
     = [999999999999999872, 999999999999999872, 999999999999999872, 999999999999999872,
        1000000000000000000, 1000000000000000000, 1000000000000000000,
        1000000000000000000, 1000000000000000000,
        1000000000000000128, 1000000000000000128, 1000000000000000128,
        1000000000000000128]"
    by (simp add: Array_sort_def)
  finally show ?thesis by (simp add: I)
qed

text \<open>
  C7 (amended): for a spot above 0 and at most \<open>9 * 10 ^ 15\<close> the ladder is strictly
  ascending, has at most 13 strikes, all above 0, and two neighbours differ by exactly
  the interval of the band of the spot.
\<close>

theorem strike_ladder:
  assumes "0 < spot" "spot \<le> 9 * 10 ^ 15"
  shows "sorted_wrt (<) (generateStrikes spot)
       \<and> length (generateStrikes spot) \<le> 13
       \<and> (\<forall>s \<in> set (generateStrikes spot). 0 < s)
       \<and> (\<forall>j. Suc j < length (generateStrikes spot) \<longrightarrow>
             generateStrikes spot ! Suc j - generateStrikes spot ! j = strike_interval spot)
       \<and> strike_interval spot =
           (if spot < 50 then 2.5 else if spot < 100 then 5 else if spot < 200 then 5
            else if spot < 500 then 10 else 25)"
proof -
  let ?I = "strike_interval spot"
  let ?k = "Math_round (fl (spot / ?I))"
  let ?lo = "max 1 (?k - 6)" and ?hi = "?k + 6"
  have I: "0 < ?I" by (rule interval_pos)
  have cf: "generateStrikes spot = map (\<lambda>j. real_of_int j * ?I) [?lo .. ?hi]"
    using assms by (rule generateStrikes_closed_form)
  have asc: "sorted_wrt (<) (generateStrikes spot)"
    unfolding cf using I by (simp add: sorted_wrt_map sorted_wrt_mono_rel [OF _ sorted_wrt_upto])
  have len: "length (generateStrikes spot) \<le> 13"
    unfolding cf by simp
  have pos: "\<forall>s \<in> set (generateStrikes spot). 0 < s"
    unfolding cf using I by auto
  have step: "generateStrikes spot ! Suc j - generateStrikes spot ! j = ?I"
    if "Suc j < length (generateStrikes spot)" for j
  proof -
    from that have b: "Suc j < length [?lo .. ?hi]" "j < length [?lo .. ?hi]"
      unfolding cf by simp_all
    then have "?lo + int (Suc j) \<le> ?hi" "?lo + int j \<le> ?hi" by simp_all
    then have "[?lo .. ?hi] ! Suc j = ?lo + int (Suc j)" "[?lo .. ?hi] ! j = ?lo + int j"
      by (simp_all only: nth_upto)
    with b show ?thesis unfolding cf by (simp add: algebra_simps)
  qed
  have band: "?I = (if spot < 50 then 2.5 else if spot < 100 then 5 else if spot < 200 then 5
            else if spot < 500 then 10 else 25)"
    by (simp add: strike_interval_def)
  show ?thesis
    by (intro conjI allI impI) (rule asc len pos step band, assumption?)+
qed

text \<open>C7 (amended), at spot 100.\<close>

theorem strike_ladder_witness:
  "(0::real) < 100 \<and> (100::real) \<le> 9 * 10 ^ 15
   \<and> generateStrikes 100 = [70, 75, 80, 85, 90, 95, 100, 105, 110, 115, 120, 125, 130]
   \<and> sorted_wrt (<) (generateStrikes 100) \<and> length (generateStrikes 100) \<le> 13
   \<and> generateStrikes 100 ! Suc 0 - generateStrikes 100 ! 0 = 5"
  using strike_ladder [of 100] generateStrikes_100 by simp

text \<open>
  More on the ladder: it has at least 6 strikes, and fewer than 8 only for a spot below
  3.75, where it is one of two lists.
\<close>

lemma ladder_positive:
  assumes "0 < spot" "spot \<le> 9 * 10 ^ 15" "x \<in> set (generateStrikes spot)"
  shows "0 < x"
  using assms(3) interval_pos [of spot]
  unfolding generateStrikes_closed_form [OF assms(1,2)] by auto

lemma ladder_length:
  assumes "0 < spot" "spot \<le> 9 * 10 ^ 15"
  shows "length (generateStrikes spot)
         = nat (Math_round (fl (spot / strike_interval spot)) + 6
                - max 1 (Math_round (fl (spot / strike_interval spot)) - 6) + 1)"
  unfolding generateStrikes_closed_form [OF assms] by simp

lemma ladder_at_least_6:
  assumes "0 < spot" "spot \<le> 9 * 10 ^ 15"
  shows "6 \<le> length (generateStrikes spot)"
  using ladder_index_bounds(1) [OF assms] unfolding ladder_length [OF assms] by simp

lemma upto_1_6: "[1 .. 6] = [1, 2, 3, 4, 5, 6 :: int]"
  by code_simp

lemma upto_1_7: "[1 .. 7] = [1, 2, 3, 4, 5, 6, 7 :: int]"
  by code_simp

lemma fl_below:
  assumes "0 \<le> q" "fl q < c" "fl c = c"
  shows "q < c"
proof (rule ccontr)
  assume "\<not> q < c"
  then have "c \<le> q" by simp
  moreover from assms(2) fl_nonneg [OF assms(1)] assms(3) have "0 \<le> c" by simp
  ultimately have "fl c \<le> fl q" by (intro fl_mono)
  with assms show False by simp
qed

lemma ladder_cases:
  assumes "0 < spot" "spot \<le> 9 * 10 ^ 15"
  shows "8 \<le> length (generateStrikes spot)
       \<or> (spot < 1.25 \<and> generateStrikes spot = [2.5, 5, 7.5, 10, 12.5, 15])
       \<or> (spot < 3.75 \<and> generateStrikes spot = [2.5, 5, 7.5, 10, 12.5, 15, 17.5])"
proof -
  let ?I = "strike_interval spot"
  let ?k = "Math_round (fl (spot / ?I))"
  have k0: "0 \<le> ?k" using assms by (rule ladder_index_bounds)
  have I: "0 < ?I" by (rule interval_pos)
  with assms have q0: "0 \<le> spot / ?I" by simp
  have half: "fl (1 / 2) = 1 / 2" by (rule fl_half_integer [where m = 1]) simp_all
  have three: "fl (3 / 2) = 3 / 2" by (rule fl_half_integer [where m = 3]) simp_all
  consider "2 \<le> ?k" | "?k = 0" | "?k = 1" using k0 by linarith
  then show ?thesis
  proof cases
    case 1
    then have "8 \<le> nat (?k + 6 - max 1 (?k - 6) + 1)" by linarith
    then show ?thesis unfolding ladder_length [OF assms] by (rule disjI1)
  next
    case 2
    then have "fl (spot / ?I) + 1 / 2 < 1" unfolding Math_round_def by linarith
    then have "fl (spot / ?I) < 1 / 2" by simp
    with q0 have "spot / ?I < 1 / 2" using half by (rule fl_below)
    with I have lt: "spot < ?I / 2" by (simp add: field_simps)
    have "?I \<le> 25" by (simp add: strike_interval_def)
    with lt have "spot < 50" by simp
    then have Ieq: "?I = 2.5" by (simp add: strike_interval_def)
    with lt have s: "spot < 1.25" by simp
    have "generateStrikes spot = map (\<lambda>j. real_of_int j * ?I) [max 1 (0 - 6) .. 0 + 6]"
      using generateStrikes_closed_form [OF assms] unfolding 2 .
    then have "generateStrikes spot = [2.5, 5, 7.5, 10, 12.5, 15]"
      by (simp add: Ieq upto_1_6 upto_1_7)
    with s show ?thesis by simp
  next
    case 3
    then have "fl (spot / ?I) + 1 / 2 < 2" unfolding Math_round_def by linarith
    then have "fl (spot / ?I) < 3 / 2" by simp
    with q0 have "spot / ?I < 3 / 2" using three by (rule fl_below)
    with I have lt: "spot < 3 * ?I / 2" by (simp add: field_simps)
    have "?I \<le> 25" by (simp add: strike_interval_def)
    with lt have "spot < 50" by simp
    then have Ieq: "?I = 2.5" by (simp add: strike_interval_def)
    with lt have s: "spot < 3.75" by simp
    have "generateStrikes spot = map (\<lambda>j. real_of_int j * ?I) [max 1 (1 - 6) .. 1 + 6]"
      using generateStrikes_closed_form [OF assms] unfolding 3 .
    then have "generateStrikes spot = [2.5, 5, 7.5, 10, 12.5, 15, 17.5]"
      by (simp add: Ieq upto_1_6 upto_1_7)
    with s show ?thesis by simp
  qed
qed

lemma find_or_in_range:
  assumes "i < length ks" "\<forall>x \<in> set ks. 0 < x"
  shows "definedPositive (find_or P ks i)"
proof (cases "List.find P ks")
  case None
  with assms show ?thesis by (simp add: find_or_def at_index_def definedPositive_def)
next
  case (Some s)
  then have "s \<in> set ks" by (auto simp: find_Some_iff)
  with assms Some show ?thesis by (auto simp: find_or_def definedPositive_def)
qed

lemma find_or_ladder:
  assumes "0 < spot" "spot \<le> 9 * 10 ^ 15" "i < length (generateStrikes spot)"
  shows "definedPositive (find_or P (generateStrikes spot) i)"
  using assms ladder_positive [OF assms(1,2)] by (intro find_or_in_range) auto

lemma find_or_low:
  assumes "0 < spot" "spot \<le> 9 * 10 ^ 15" "i < 6"
  shows "definedPositive (find_or P (generateStrikes spot) i)"
  using assms ladder_at_least_6 [OF assms(1,2)] by (intro find_or_ladder) auto

section \<open>Theorems: expiration calendar\<close>

text \<open>
  The loop ends on an instant whose local day is a Friday, so every candidate that is
  kept is a local Friday with its days to expiry in the window, and at most 3 dates are
  returned. The date that is returned is the UTC date of that instant. In UTC the two
  agree, and every returned date is a Friday.
\<close>

lemma nextFriday_is_friday: "getDay tz (nextFriday tz t) = 5"
proof (induction tz t rule: nextFriday.induct)
  case (1 tz t)
  show ?case
  proof (cases "getDay tz t = 5")
    case True
    then show ?thesis by (subst nextFriday.simps) simp
  next
    case False
    with 1 show ?thesis by (subst nextFriday.simps) simp
  qed
qed

lemma weeklyCandidate_friday: "getDay tz (weeklyCandidate tz today w) = 5"
  by (simp add: weeklyCandidate_def nextFriday_is_friday)

lemma monthlyCandidate_friday: "getDay tz (monthlyCandidate tz today k) = 5"
  by (simp add: monthlyCandidate_def Let_def nextFriday_is_friday split: prod.split)

lemma keptCandidates_property:
  assumes "e \<in> set (keptCandidates tz today minDte maxDte)"
  shows "getDay tz e = 5 \<and> minDte \<le> candidateDte today e \<and> candidateDte today e \<le> maxDte"
  using assms
  by (auto simp: keptCandidates_def inWindow_def weeklyCandidate_friday monthlyCandidate_friday)

lemma calendar_length: "length (getExpirationDates tz today minDte maxDte) \<le> 3"
  by (simp add: getExpirationDates_def)

lemma calendar_local_fridays:
  assumes "d \<in> set (getExpirationDates tz today minDte maxDte)"
  shows "\<exists>e. d = isoDate e \<and> getDay tz e = 5
           \<and> minDte \<le> candidateDte today e \<and> candidateDte today e \<le> maxDte"
proof -
  from assms have "d \<in> set (map isoDate (keptCandidates tz today minDte maxDte))"
    unfolding getExpirationDates_def by (rule in_set_takeD)
  then obtain e where "e \<in> set (keptCandidates tz today minDte maxDte)" "d = isoDate e"
    by auto
  with keptCandidates_property [of e] show ?thesis by blast
qed

lemma calendar_in_utc:
  assumes "d \<in> set (getExpirationDates 0 today minDte maxDte)"
  shows "weekday d = 5"
proof -
  from calendar_local_fridays [OF assms] obtain e where "d = isoDate e" "getDay 0 e = 5"
    by blast
  then show ?thesis by (simp add: getDay_def localDay_def isoDate_def)
qed

text \<open>
  Two runs of the calendar, by evaluation. The first: no candidate has 200 to 300 days
  to expiry. The second: local time 9 hours east of UTC, \<open>today\<close> at 2024-01-01, 12:00
  local time, window 30 to 45 days.
\<close>

lemma cal_empty: "getExpirationDates 0 1704110400000 200 300 = []"
  by code_simp

lemma cal_tokyo: "getExpirationDates 32400000 1704078000000 30 45 = [19755, 19762, 19768]"
  by code_simp

lemma cal_tokyo_days: "map weekday [19755, 19762, 19768] = [5, 5, 4]"
  "map civil_from_days [19755, 19762, 19768] = [(2024, 2, 2), (2024, 2, 9), (2024, 2, 15)]"
  by code_simp+

text \<open>
  C8 fails in a time zone east of UTC. At 9 hours east of UTC, with \<open>today\<close> at
  2024-01-01, 12:00 local time, and the window 30 to 45, the third date returned is
  2024-02-15, a Thursday: the third Friday candidate is local midnight of 2024-02-16,
  which is 15:00 UTC of the 15th, and \<open>toISOString\<close> gives the UTC date.
\<close>

theorem calendar_thursday_east_of_utc:
  "getExpirationDates 32400000 1704078000000 30 45 = [19755, 19762, 19768]
   \<and> map civil_from_days [19755, 19762, 19768] = [(2024, 2, 2), (2024, 2, 9), (2024, 2, 15)]
   \<and> map weekday [19755, 19762, 19768] = [5, 5, 4]"
  by (simp only: cal_tokyo cal_tokyo_days)

text \<open>
  The days to expiry that the synthesizer computes for the primary expiry, from the
  returned date at UTC midnight, can be one less than the days to expiry the calendar
  computed from the instant, and so fall below \<open>minDte\<close>: here in UTC, at 15:00 on
  2024-01-01, with the window 32 to 45.
\<close>

lemma primary_dte_below_window:
  "getExpirationDates 0 1704121200000 32 45 = [19755, 19762, 19769]
   \<and> primaryDte (at_index (getExpirationDates 0 1704121200000 32 45) 0) 1704121200000 = Some 31"
proof -
  have c: "getExpirationDates 0 1704121200000 32 45 = [19755, 19762, 19769]" by code_simp
  have "(parseDate 19755 - 1704121200000) div msPerDay = 31" by code_simp
  then show ?thesis by (simp add: c at_index_def primaryDte_def)
qed

section \<open>Theorems: strategy synthesizer\<close>

lemmas nan_ops = lift2_def nadd_def nsub_def nmax_def nneg_def nround100_def nroundabs100_def
  ngt_def nle_def below_def above_def find_or_def at_index_def priceLeg_def nanQuote_def
  greeksSub_def greeksAdd_def mkLeg_def

text \<open>
  The seven sections of the synthesizer at spot 100 when the calendar is empty: the
  primary expiry is \<open>undefined\<close> and the days to expiry are \<open>NaN\<close>.
\<close>

lemma bullPutSpread_nan:
  "map summary (bullPutSpread 100 ladder100 None None iv rnd)
     = [(''Bull Put Spread'', None, [None, None], [Some 70, Some 75], [None, None])]"
  by (simp add: bullPutSpread_def Let_def nan_ops summary_def)

lemma ironCondor_nan:
  "map summary (ironCondor 100 ladder100 None None iv rnd) = []"
  by (simp add: ironCondor_def Let_def nan_ops summary_def)

lemma cashSecuredPut_nan:
  "map summary (cashSecuredPut 100 ladder100 None None iv rnd)
     = [(''Cash Secured Put'', None, [None], [Some 70], [None])]"
  by (simp add: cashSecuredPut_def Let_def nan_ops summary_def)

lemma longStraddle_nan:
  "map summary (longStraddle 100 ladder100 None None iv rnd)
     = [(''Long Straddle'', Some 99999, [None, None], [Some 100, Some 100], [None, None])]"
  by (simp add: longStraddle_def Let_def nan_ops summary_def)

lemma coveredCall_nan:
  "map summary (coveredCall 100 ladder100 None None iv rnd)
     = [(''Covered Call'', None, [None], [Some 110], [None])]"
  by (simp add: coveredCall_def Let_def nan_ops summary_def)

lemma bearCallSpread_nan:
  "map summary (bearCallSpread 100 ladder100 None None iv rnd) = []"
  by (simp add: bearCallSpread_def Let_def nan_ops summary_def)

lemma bullCallSpread_nan:
  "map summary (bullCallSpread 100 ladder100 None None iv rnd) = []"
  by (simp add: bullCallSpread_def Let_def nan_ops summary_def)

lemma empty_calendar_output:
  "map summary (generateStrategies 0 1704110400000 1704110400000 rnd 100 200 300)
     = [(''Bull Put Spread'', None, [None, None], [Some 70, Some 75], [None, None]),
        (''Cash Secured Put'', None, [None], [Some 70], [None]),
        (''Long Straddle'', Some 99999, [None, None], [Some 100, Some 100], [None, None]),
        (''Covered Call'', None, [None], [Some 110], [None])]"
  by (simp add: generateStrategies_def Let_def cal_empty generateStrikes_100 at_index_def
      primaryDte_def bullPutSpread_nan ironCondor_nan cashSecuredPut_nan longStraddle_nan
      coveredCall_nan bearCallSpread_nan bullCallSpread_nan)

text \<open>
  The strikes and the expiry of the legs. For every spot above 0 and at most
  \<open>9 * 10 ^ 15\<close> every strike selection
  of the synthesizer gives a strike of the ladder: the selections with fallback index
  below 6 because the ladder has at least 6 strikes, the others because on a ladder
  shorter than 8 their search succeeds. So every leg of every strategy produced has a
  strike above 0. Its expiry is the first date of the calendar, which is \<open>undefined\<close>
  when the calendar is empty.
\<close>

lemma definedPositive_Some: "definedPositive (Some x) \<longleftrightarrow> 0 < x"
  by (simp add: definedPositive_def)

lemma high_selections:
  assumes "0 < spot" "spot \<le> 9 * 10 ^ 15"
  shows "definedPositive (find_or (\<lambda>s. s > spot * 1.07) (generateStrikes spot) 6)"
    and "definedPositive (find_or (\<lambda>s. above s
           (nadd (find_or (\<lambda>s. s > spot * 1.07) (generateStrikes spot) 6) (Some 10)))
           (generateStrikes spot) 7)"
    and "definedPositive (find_or (\<lambda>s. s > spot * 1.05) (generateStrikes spot) 6)"
    and "definedPositive (find_or (\<lambda>s. above s
           (nadd (find_or (\<lambda>s. s > spot * 1.02) (generateStrikes spot) 5) (Some 10)))
           (generateStrikes spot) 6)"
proof -
  from ladder_cases [OF assms] consider
      (long) "8 \<le> length (generateStrikes spot)"
    | (six) "spot < 1.25" "generateStrikes spot = [2.5, 5, 7.5, 10, 12.5, 15]"
    | (seven) "spot < 3.75" "generateStrikes spot = [2.5, 5, 7.5, 10, 12.5, 15, 17.5]"
    by blast
  then have "definedPositive (find_or (\<lambda>s. s > spot * 1.07) (generateStrikes spot) 6)
    \<and> definedPositive (find_or (\<lambda>s. above s
           (nadd (find_or (\<lambda>s. s > spot * 1.07) (generateStrikes spot) 6) (Some 10)))
           (generateStrikes spot) 7)
    \<and> definedPositive (find_or (\<lambda>s. s > spot * 1.05) (generateStrikes spot) 6)
    \<and> definedPositive (find_or (\<lambda>s. above s
           (nadd (find_or (\<lambda>s. s > spot * 1.02) (generateStrikes spot) 5) (Some 10)))
           (generateStrikes spot) 6)"
  proof cases
    case long
    then have "6 < length (generateStrikes spot)" "7 < length (generateStrikes spot)"
      by simp_all
    then show ?thesis using assms by (intro conjI find_or_ladder)
  next
    case six
    with assms show ?thesis
      unfolding six(2)
      by (simp add: find_or_def above_def nadd_def lift2_def definedPositive_def)
  next
    case seven
    with assms show ?thesis
      unfolding seven(2)
      by (simp add: find_or_def above_def nadd_def lift2_def definedPositive_def)
  qed
  then show "definedPositive (find_or (\<lambda>s. s > spot * 1.07) (generateStrikes spot) 6)"
    and "definedPositive (find_or (\<lambda>s. above s
           (nadd (find_or (\<lambda>s. s > spot * 1.07) (generateStrikes spot) 6) (Some 10)))
           (generateStrikes spot) 7)"
    and "definedPositive (find_or (\<lambda>s. s > spot * 1.05) (generateStrikes spot) 6)"
    and "definedPositive (find_or (\<lambda>s. above s
           (nadd (find_or (\<lambda>s. s > spot * 1.02) (generateStrikes spot) 5) (Some 10)))
           (generateStrikes spot) 6)"
    by simp_all
qed

lemma bullPutSpread_legs:
  assumes "s \<in> set (bullPutSpread p ks e d iv rnd)"
  shows "map strike (legs s) =
           [find_or (\<lambda>s. s < p * 0.93) ks 2,
            find_or (\<lambda>s. below s (nsub (find_or (\<lambda>s. s < p * 0.93) ks 2) (Some 10))) ks 1]
       \<and> map expiry (legs s) = [e, e]"
  using assms by (auto simp: bullPutSpread_def Let_def mkLeg_def split: if_splits)

lemma ironCondor_legs:
  assumes "s \<in> set (ironCondor p ks e d iv rnd)"
  shows "map strike (legs s) =
           [find_or (\<lambda>s. s > p * 1.07) ks 6,
            find_or (\<lambda>s. above s (nadd (find_or (\<lambda>s. s > p * 1.07) ks 6) (Some 10))) ks 7,
            find_or (\<lambda>s. s < p * 0.93) ks 2,
            find_or (\<lambda>s. below s (nsub (find_or (\<lambda>s. s < p * 0.93) ks 2) (Some 10))) ks 1]
       \<and> map expiry (legs s) = [e, e, e, e]"
  using assms by (auto simp: ironCondor_def Let_def mkLeg_def split: if_splits)

lemma cashSecuredPut_legs:
  assumes "s \<in> set (cashSecuredPut p ks e d iv rnd)"
  shows "map strike (legs s) = [find_or (\<lambda>s. s < p * 0.95) ks 3]
       \<and> map expiry (legs s) = [e]"
  using assms by (auto simp: cashSecuredPut_def Let_def mkLeg_def split: if_splits)

lemma longStraddle_legs:
  assumes "s \<in> set (longStraddle p ks e d iv rnd)"
  shows "map strike (legs s) =
           [find_or (\<lambda>s. \<bar>s - p\<bar> < 5) ks 4, find_or (\<lambda>s. \<bar>s - p\<bar> < 5) ks 4]
       \<and> map expiry (legs s) = [e, e]"
  using assms by (auto simp: longStraddle_def Let_def mkLeg_def split: if_splits)

lemma coveredCall_legs:
  assumes "s \<in> set (coveredCall p ks e d iv rnd)"
  shows "map strike (legs s) = [find_or (\<lambda>s. s > p * 1.05) ks 6]
       \<and> map expiry (legs s) = [e]"
  using assms by (auto simp: coveredCall_def Let_def mkLeg_def split: if_splits)

lemma bearCallSpread_legs:
  assumes "s \<in> set (bearCallSpread p ks e d iv rnd)"
  shows "map strike (legs s) =
           [find_or (\<lambda>s. s > p * 1.02) ks 5,
            find_or (\<lambda>s. above s (nadd (find_or (\<lambda>s. s > p * 1.02) ks 5) (Some 10))) ks 6]
       \<and> map expiry (legs s) = [e, e]"
  using assms by (auto simp: bearCallSpread_def Let_def mkLeg_def split: if_splits)

lemma bullCallSpread_legs:
  assumes "s \<in> set (bullCallSpread p ks e d iv rnd)"
  shows "map strike (legs s) =
           [find_or (\<lambda>s. s > p * 1.02) ks 5,
            find_or (\<lambda>s. above s (nadd (find_or (\<lambda>s. s > p * 1.02) ks 5) (Some 10))) ks 6]
       \<and> map expiry (legs s) = [e, e]"
  using assms by (auto simp: bullCallSpread_def Let_def mkLeg_def split: if_splits)

lemma legs_summary:
  assumes "map strike ls = ks" "map expiry ls = es"
    and "list_all definedPositive ks" "list_all (\<lambda>x. x = e) es" "ks \<noteq> []"
  shows "list_all definedPositive (map strike ls)
       \<and> list_all (\<lambda>x. x = e) (map expiry ls) \<and> ls \<noteq> []"
  using assms by auto

lemma produced_legs:
  assumes "0 < spot" "spot \<le> 9 * 10 ^ 15" "s \<in> set (generateStrategies tz today now rnd spot minDte maxDte)"
  shows "list_all definedPositive (map strike (legs s))
       \<and> list_all (\<lambda>e. e = at_index (getExpirationDates tz today minDte maxDte) 0)
            (map expiry (legs s))
       \<and> legs s \<noteq> []"
proof -
  have low: "definedPositive (find_or P (generateStrikes spot) 1)"
    "definedPositive (find_or P (generateStrikes spot) 2)"
    "definedPositive (find_or P (generateStrikes spot) 3)"
    "definedPositive (find_or P (generateStrikes spot) 4)"
    "definedPositive (find_or P (generateStrikes spot) 5)" for P
    by (rule find_or_low [OF assms(1,2)], simp)+
  note high = high_selections [OF assms(1,2)]
  from assms(3) show ?thesis
    unfolding generateStrategies_def Let_def set_append Un_iff
  proof (elim disjE)
    assume "s \<in> set (bullPutSpread spot (generateStrikes spot)
        (at_index (getExpirationDates tz today minDte maxDte) 0)
        (primaryDte (at_index (getExpirationDates tz today minDte maxDte) 0) now)
        (jitter 0.35 (rnd 0) 0.15) rnd)"
    note eq = bullPutSpread_legs [OF this]
    show ?thesis
      by (rule legs_summary [OF eq [THEN conjunct1] eq [THEN conjunct2]])
        (simp_all only: list.pred_inject low high simp_thms list.distinct)
  next
    assume "s \<in> set (ironCondor spot (generateStrikes spot)
        (at_index (getExpirationDates tz today minDte maxDte) 0)
        (primaryDte (at_index (getExpirationDates tz today minDte maxDte) 0) now)
        (jitter 0.35 (rnd 0) 0.15) rnd)"
    note eq = ironCondor_legs [OF this]
    show ?thesis
      by (rule legs_summary [OF eq [THEN conjunct1] eq [THEN conjunct2]])
        (simp_all only: list.pred_inject low high simp_thms list.distinct)
  next
    assume "s \<in> set (cashSecuredPut spot (generateStrikes spot)
        (at_index (getExpirationDates tz today minDte maxDte) 0)
        (primaryDte (at_index (getExpirationDates tz today minDte maxDte) 0) now)
        (jitter 0.35 (rnd 0) 0.15) rnd)"
    note eq = cashSecuredPut_legs [OF this]
    show ?thesis
      by (rule legs_summary [OF eq [THEN conjunct1] eq [THEN conjunct2]])
        (simp_all only: list.pred_inject low high simp_thms list.distinct)
  next
    assume "s \<in> set (longStraddle spot (generateStrikes spot)
        (at_index (getExpirationDates tz today minDte maxDte) 0)
        (primaryDte (at_index (getExpirationDates tz today minDte maxDte) 0) now)
        (jitter 0.35 (rnd 0) 0.15) rnd)"
    note eq = longStraddle_legs [OF this]
    show ?thesis
      by (rule legs_summary [OF eq [THEN conjunct1] eq [THEN conjunct2]])
        (simp_all only: list.pred_inject low high simp_thms list.distinct)
  next
    assume "s \<in> set (coveredCall spot (generateStrikes spot)
        (at_index (getExpirationDates tz today minDte maxDte) 0)
        (primaryDte (at_index (getExpirationDates tz today minDte maxDte) 0) now)
        (jitter 0.35 (rnd 0) 0.15) rnd)"
    note eq = coveredCall_legs [OF this]
    show ?thesis
      by (rule legs_summary [OF eq [THEN conjunct1] eq [THEN conjunct2]])
        (simp_all only: list.pred_inject low high simp_thms list.distinct)
  next
    assume "s \<in> set (bearCallSpread spot (generateStrikes spot)
        (at_index (getExpirationDates tz today minDte maxDte) 0)
        (primaryDte (at_index (getExpirationDates tz today minDte maxDte) 0) now)
        (jitter 0.35 (rnd 0) 0.15) rnd)"
    note eq = bearCallSpread_legs [OF this]
    show ?thesis
      by (rule legs_summary [OF eq [THEN conjunct1] eq [THEN conjunct2]])
        (simp_all only: list.pred_inject low high simp_thms list.distinct)
  next
    assume "s \<in> set (bullCallSpread spot (generateStrikes spot)
        (at_index (getExpirationDates tz today minDte maxDte) 0)
        (primaryDte (at_index (getExpirationDates tz today minDte maxDte) 0) now)
        (jitter 0.35 (rnd 0) 0.15) rnd)"
    note eq = bullCallSpread_legs [OF this]
    show ?thesis
      by (rule legs_summary [OF eq [THEN conjunct1] eq [THEN conjunct2]])
        (simp_all only: list.pred_inject low high simp_thms list.distinct)
  qed
qed

lemma legs_have_positive_strikes:
  assumes "0 < spot" "spot \<le> 9 * 10 ^ 15"
    "s \<in> set (generateStrategies tz today now rnd spot minDte maxDte)" "l \<in> set (legs s)"
  shows "(\<exists>k. strike l = Some k \<and> 0 < k)
       \<and> expiry l = at_index (getExpirationDates tz today minDte maxDte) 0"
proof -
  from produced_legs [OF assms(1,2,3)] assms(4)
  have "definedPositive (strike l)"
      "expiry l = at_index (getExpirationDates tz today minDte maxDte) 0"
    by (auto simp: list_all_iff)
  then show ?thesis by (cases "strike l") (simp_all add: definedPositive_def)
qed

text \<open>
  C1 fails when the calendar is empty. At spot 100 with the window 200 to 300 the
  calendar returns no date; the synthesizer returns four strategies, every leg with a
  strike above 0 from the ladder, and every leg with the expiry \<open>undefined\<close>.
\<close>

theorem empty_calendar_legs_without_expiry:
  "getExpirationDates 0 1704110400000 200 300 = []
   \<and> map (\<lambda>s. (name s, map strike (legs s), map expiry (legs s)))
       (generateStrategies 0 1704110400000 1704110400000 rnd 100 200 300)
     = [(''Bull Put Spread'', [Some 70, Some 75], [None, None]),
        (''Cash Secured Put'', [Some 70], [None]),
        (''Long Straddle'', [Some 100, Some 100], [None, None]),
        (''Covered Call'', [Some 110], [None])]"
proof -
  have "map (\<lambda>s. (name s, map strike (legs s), map expiry (legs s))) xs
      = map (\<lambda>(n, mp, pr, st, ex). (n, st, ex)) (map summary xs)" for xs
    by (simp add: summary_def)
  then show ?thesis by (simp only: empty_calendar_output cal_empty) simp
qed

text \<open>
  C9 fails when the calendar is empty. At the same input every premium is \<open>NaN\<close>, and
  so is the net credit of the Bull Put Spread; the test \<open>bullPutCredit <= 0.05\<close> that
  skips the strategy is false for \<open>NaN\<close>, and the Bull Put Spread is in the output with
  \<open>maxProfit\<close> \<open>NaN\<close>. The Bear Call Spread, whose test is \<open>bearCallCredit > 0.05\<close>, is
  not.
\<close>

theorem empty_calendar_bull_put_without_credit:
  "map (\<lambda>s. (name s, maxProfit s, map premium (legs s)))
       (generateStrategies 0 1704110400000 1704110400000 rnd 100 200 300)
     = [(''Bull Put Spread'', None, [None, None]),
        (''Cash Secured Put'', None, [None]),
        (''Long Straddle'', Some 99999, [None, None]),
        (''Covered Call'', None, [None])]"
proof -
  have "map (\<lambda>s. (name s, maxProfit s, map premium (legs s))) xs
      = map (\<lambda>(n, mp, pr, st, ex). (n, mp, pr)) (map summary xs)" for xs
    by (simp add: summary_def)
  then show ?thesis by (simp only: empty_calendar_output) simp
qed

text \<open>
  The two inclusion tests in general: a Bear Call Spread that is produced has a net
  credit above 0.05 and a \<open>maxProfit\<close> above 0; a Bull Put Spread that is produced has
  that, or a net credit that is \<open>NaN\<close>.
\<close>

lemma round_credit_positive:
  assumes "c > 0.05"
  shows "real_of_int (Math_round (c * 100)) > 0"
proof -
  from assms have "c * 100 + 1 / 2 \<ge> 1" by simp
  then have "\<lfloor>c * 100 + 1 / 2\<rfloor> \<ge> 1" by linarith
  then show ?thesis by (simp add: Math_round_def)
qed

lemma bull_put_included_iff:
  "bullPutSpread p ks e d iv rnd \<noteq> [] \<longleftrightarrow> \<not> nle (bullPutCredit p ks d iv rnd) 0.05"
  by (simp add: bullPutSpread_def bullPutCredit_def Let_def)

lemma bear_call_included_iff:
  "bearCallSpread p ks e d iv rnd \<noteq> [] \<longleftrightarrow> ngt (bearCallCredit p ks d iv rnd) 0.05"
  by (simp add: bearCallSpread_def bearCallCredit_def Let_def)

lemma bull_put_maxProfit:
  assumes "s \<in> set (bullPutSpread p ks e d iv rnd)"
  shows "maxProfit s = nround100 (bullPutCredit p ks d iv rnd)"
  using assms by (simp add: bullPutSpread_def bullPutCredit_def Let_def split: if_splits)

lemma bear_call_maxProfit:
  assumes "s \<in> set (bearCallSpread p ks e d iv rnd)"
  shows "maxProfit s = nround100 (bearCallCredit p ks d iv rnd)"
  using assms by (simp add: bearCallSpread_def bearCallCredit_def Let_def split: if_splits)

lemma bull_put_profit:
  assumes "s \<in> set (bullPutSpread p ks e d iv rnd)"
  shows "(bullPutCredit p ks d iv rnd = None \<and> maxProfit s = None)
       \<or> (\<exists>c. bullPutCredit p ks d iv rnd = Some c \<and> c > 0.05
              \<and> maxProfit s = Some (real_of_int (Math_round (c * 100)))
              \<and> real_of_int (Math_round (c * 100)) > 0)"
proof -
  from assms have "bullPutSpread p ks e d iv rnd \<noteq> []" by auto
  then have n: "\<not> nle (bullPutCredit p ks d iv rnd) 0.05" by (simp add: bull_put_included_iff)
  show ?thesis
  proof (cases "bullPutCredit p ks d iv rnd")
    case None
    with bull_put_maxProfit [OF assms] show ?thesis by (simp add: nround100_def)
  next
    case (Some c)
    with n have "c > 0.05" by (simp add: nle_def)
    with Some bull_put_maxProfit [OF assms] round_credit_positive [of c] show ?thesis
      by (simp add: nround100_def)
  qed
qed

lemma bear_call_profit:
  assumes "s \<in> set (bearCallSpread p ks e d iv rnd)"
  shows "\<exists>c. bearCallCredit p ks d iv rnd = Some c \<and> c > 0.05
              \<and> maxProfit s = Some (real_of_int (Math_round (c * 100)))
              \<and> real_of_int (Math_round (c * 100)) > 0"
proof -
  from assms have "bearCallSpread p ks e d iv rnd \<noteq> []" by auto
  then have n: "ngt (bearCallCredit p ks d iv rnd) 0.05" by (simp add: bear_call_included_iff)
  then obtain c where c: "bearCallCredit p ks d iv rnd = Some c" "c > 0.05"
    by (auto simp: ngt_def split: option.splits)
  with bear_call_maxProfit [OF assms] round_credit_positive [of c] show ?thesis
    by (simp add: nround100_def)
qed

text \<open>Name and confidence of what each section pushes.\<close>

lemma bullPutSpread_conf:
  "s \<in> set (bullPutSpread p ks e d iv rnd) \<Longrightarrow>
     name s = ''Bull Put Spread'' \<and> confidence s = jitter 72.5 (rnd 3) 5"
  by (auto simp: bullPutSpread_def Let_def split: if_splits)

lemma ironCondor_conf:
  "s \<in> set (ironCondor p ks e d iv rnd) \<Longrightarrow>
     name s = ''Iron Condor'' \<and> confidence s = jitter 65.2 (rnd 9) 5"
  by (auto simp: ironCondor_def Let_def split: if_splits)

lemma cashSecuredPut_conf:
  "s \<in> set (cashSecuredPut p ks e d iv rnd) \<Longrightarrow>
     name s = ''Cash Secured Put'' \<and> confidence s = jitter 69.8 (rnd 12) 5"
  by (auto simp: cashSecuredPut_def Let_def split: if_splits)

lemma longStraddle_conf:
  "s \<in> set (longStraddle p ks e d iv rnd) \<Longrightarrow>
     name s = ''Long Straddle'' \<and> confidence s = jitter 58.5 (rnd 16) 5"
  by (auto simp: longStraddle_def Let_def split: if_splits)

lemma coveredCall_conf:
  "s \<in> set (coveredCall p ks e d iv rnd) \<Longrightarrow>
     name s = ''Covered Call'' \<and> confidence s = jitter 66.7 (rnd 19) 5"
  by (auto simp: coveredCall_def Let_def split: if_splits)

lemma bearCallSpread_conf:
  "s \<in> set (bearCallSpread p ks e d iv rnd) \<Longrightarrow>
     name s = ''Bear Call Spread'' \<and> confidence s = jitter 63.5 (rnd 23) 5"
  by (auto simp: bearCallSpread_def Let_def split: if_splits)

lemma bullCallSpread_conf:
  "s \<in> set (bullCallSpread p ks e d iv rnd) \<Longrightarrow>
     name s = ''Bull Call Spread'' \<and> confidence s = jitter 68.2 (rnd 27) 5"
  by (auto simp: bullCallSpread_def Let_def split: if_splits)

lemma produced_confidence:
  assumes "s \<in> set (generateStrategies tz today now rnd spot minDte maxDte)"
  shows "name s \<in> set catalogNames
       \<and> confidence s = jitter (baseConfidence (name s)) (rnd (confidenceDraw (name s))) 5"
  using assms unfolding generateStrategies_def Let_def set_append Un_iff
  by (elim disjE)
    (drule bullPutSpread_conf ironCondor_conf cashSecuredPut_conf longStraddle_conf
       coveredCall_conf bearCallSpread_conf bullCallSpread_conf,
     simp add: baseConfidence_def confidenceDraw_def catalogNames_def)+

lemma base_bounds:
  assumes "n \<in> set catalogNames"
  shows "58.5 \<le> baseConfidence n \<and> baseConfidence n \<le> 72.5
       \<and> (n = ''Long Straddle'' \<longrightarrow> baseConfidence n = 58.5)"
  using assms by (auto simp: catalogNames_def baseConfidence_def)

lemma confidence_draws_distinct: "distinct (map confidenceDraw catalogNames)"
  by (simp add: catalogNames_def confidenceDraw_def)

text \<open>
  The confidence in doubles. The draw is below 1, so the jitter \<open>u * 5\<close> is below 5,
  but its double can be 5 less one unit in the last place or 5 itself, and the sum with
  the base then rounds up to the base plus 5: the upper ends 63.5 and 77.5 are reached.
\<close>

lemma fl_score_ends:
  "fl 5 = 5" "fl (117 / 2) = 117 / 2" "fl (127 / 2) = 127 / 2" "fl (145 / 2) = 145 / 2"
  "fl (155 / 2) = 155 / 2"
  using fl_integer [of 5] fl_half_integer [of "117 / 2" 117] fl_half_integer [of "127 / 2" 127]
    fl_half_integer [of "145 / 2" 145] fl_half_integer [of "155 / 2" 155]
  by simp_all

lemma jitter_bounds:
  assumes "0 \<le> u" "u < 1" "58.5 \<le> b" "b \<le> hi" "fl hi = hi" "fl (hi + 5) = hi + 5"
  shows "0 \<le> fl (u * 5) \<and> fl (u * 5) \<le> 5
       \<and> 58.5 \<le> jitter b u 5 \<and> jitter b u 5 \<le> hi + 5"
proof -
  from assms have "0 \<le> u * 5" "u * 5 \<le> 5" by simp_all
  then have j: "0 \<le> fl (u * 5) \<and> fl (u * 5) \<le> 5"
    by (intro fl_between) (simp_all add: fl_zero fl_score_ends)
  note fhi = assms(5,6)
  from assms have "117 / 2 \<le> fl b \<and> fl b \<le> hi"
    by (intro fl_between) (simp_all add: fl_score_ends fhi)
  with j have "117 / 2 \<le> fl b + fl (u * 5)" "fl b + fl (u * 5) \<le> hi + 5" by simp_all
  then have "117 / 2 \<le> fl (fl b + fl (u * 5)) \<and> fl (fl b + fl (u * 5)) \<le> hi + 5"
    by (intro fl_between) (simp_all add: fl_score_ends fhi)
  with j show ?thesis by (simp add: jitter_def fl_score_ends)
qed

lemma fl_last_draw: "fl ((1 - 1 / 2 ^ 52) * 5) = 5 - 1 / 2 ^ 50"
proof -
  have "fl ((1 - 1 / 2 ^ 52) * 5)
      = real_of_int (roundHalfEven ((1 - 1 / 2 ^ 52) * 5 * 2 ^ 50)) / 2 ^ 50"
    by (rule fl_eval_fine) simp_all
  also have "roundHalfEven ((1 - 1 / 2 ^ 52) * 5 * 2 ^ 50) = 5 * 2 ^ 50 - 1"
    by (simp add: roundHalfEven_def Let_def)
  finally show ?thesis by simp
qed

lemma fl_straddle_sum: "fl (117 / 2 + (5 - 1 / 2 ^ 50)) = 127 / 2"
proof -
  have "fl (117 / 2 + (5 - 1 / 2 ^ 50))
      = real_of_int (roundHalfEven ((117 / 2 + (5 - 1 / 2 ^ 50)) * 2 ^ 47)) / 2 ^ 47"
    by (rule fl_eval_fine) simp_all
  also have "roundHalfEven ((117 / 2 + (5 - 1 / 2 ^ 50)) * 2 ^ 47) = 127 * 2 ^ 46"
    by (simp add: roundHalfEven_def Let_def)
  finally show ?thesis by simp
qed

lemma jitter_last_draw: "jitter (117 / 2) almostOne 5 = 127 / 2"
proof -
  have a: "fl (almostOne * 5) = 5 - 1 / 2 ^ 50"
    unfolding almostOne_def by (rule fl_last_draw)
  show ?thesis by (simp only: jitter_def fl_score_ends a fl_straddle_sum)
qed

lemma long_straddles:
  "filter (\<lambda>s. name s = ''Long Straddle'') (generateStrategies tz today now rnd spot minDte maxDte)
     = longStraddle spot (generateStrikes spot)
         (at_index (getExpirationDates tz today minDte maxDte) 0)
         (primaryDte (at_index (getExpirationDates tz today minDte maxDte) 0) now)
         (jitter 0.35 (rnd 0) 0.15) rnd"
proof -
  have "filter (\<lambda>s. name s = ''Long Straddle'') (bullPutSpread p ks e d iv rnd) = []"
    "filter (\<lambda>s. name s = ''Long Straddle'') (ironCondor p ks e d iv rnd) = []"
    "filter (\<lambda>s. name s = ''Long Straddle'') (cashSecuredPut p ks e d iv rnd) = []"
    "filter (\<lambda>s. name s = ''Long Straddle'') (longStraddle p ks e d iv rnd)
       = longStraddle p ks e d iv rnd"
    "filter (\<lambda>s. name s = ''Long Straddle'') (coveredCall p ks e d iv rnd) = []"
    "filter (\<lambda>s. name s = ''Long Straddle'') (bearCallSpread p ks e d iv rnd) = []"
    "filter (\<lambda>s. name s = ''Long Straddle'') (bullCallSpread p ks e d iv rnd) = []"
    for p ks e d iv
    by (simp_all add: bullPutSpread_def ironCondor_def cashSecuredPut_def longStraddle_def
        coveredCall_def bearCallSpread_def bullCallSpread_def Let_def)
  then show ?thesis by (simp add: generateStrategies_def Let_def)
qed

lemma longStraddle_confidence:
  "map confidence (longStraddle p ks e d iv rnd) = [jitter 58.5 (rnd 16) 5]"
  by (simp add: longStraddle_def Let_def)

text \<open>
  C10, as stated, fails at the top of the range of \<open>Math.random\<close>: with every draw
  \<open>1 - 2 powr (- 52)\<close>, which is below 1, the confidence of the Long Straddle is
  exactly 63.5, not below 63.5.
\<close>

theorem confidence_ranges_counterexample:
  "0 \<le> almostOne \<and> almostOne < 1
   \<and> map confidence (filter (\<lambda>s. name s = ''Long Straddle'')
      (generateStrategies 0 1704110400000 1704110400000 (\<lambda>k. almostOne) 100 30 45))
     = [63.5]
   \<and> \<not> list_all (\<lambda>c. c < 63.5) (map confidence (filter (\<lambda>s. name s = ''Long Straddle'')
      (generateStrategies 0 1704110400000 1704110400000 (\<lambda>k. almostOne) 100 30 45)))"
proof -
  have "map confidence (filter (\<lambda>s. name s = ''Long Straddle'')
      (generateStrategies 0 1704110400000 1704110400000 (\<lambda>k. almostOne) 100 30 45))
     = [jitter 58.5 almostOne 5]"
    by (simp only: long_straddles longStraddle_confidence)
  moreover have "0 \<le> almostOne \<and> almostOne < 1" by (simp add: almostOne_def)
  ultimately show ?thesis by (simp add: jitter_last_draw)
qed

text \<open>
  C10 (amended): with every value of \<open>Math.random\<close> from 0 (included) to 1 (excluded),
  every strategy produced has a name of the catalog and a confidence that is, in double
  arithmetic, the base of its name plus 5 times one random value: the jitter is from 0
  to 5, and the confidence is at least 58.5 and at most 77.5, and at most 63.5 for the
  Long Straddle, the upper ends included. The threshold 55 of the profile
  moderate_aggressive excludes nothing: that profile returns what the profile
  aggressive returns.
\<close>

theorem confidence_ranges:
  assumes "\<forall>k. 0 \<le> rnd k \<and> rnd k < 1"
  shows "(\<forall>s \<in> set (generateStrategies tz today now rnd spot minDte maxDte).
            name s \<in> set catalogNames
          \<and> confidence s = jitter (baseConfidence (name s)) (rnd (confidenceDraw (name s))) 5
          \<and> 0 \<le> fl (rnd (confidenceDraw (name s)) * 5)
          \<and> fl (rnd (confidenceDraw (name s)) * 5) \<le> 5
          \<and> 58.5 \<le> confidence s \<and> confidence s \<le> 77.5
          \<and> (name s = ''Long Straddle'' \<longrightarrow> confidence s \<le> 63.5))
       \<and> filter (\<lambda>s. confidence s \<ge> 55)
            (generateStrategies tz today now rnd spot minDte maxDte)
          = generateStrategies tz today now rnd spot minDte maxDte
       \<and> handlerStrategies (generateStrategies tz today now rnd spot minDte maxDte)
            ''moderate_aggressive'' m
          = handlerStrategies (generateStrategies tz today now rnd spot minDte maxDte)
            ''aggressive'' m"
proof -
  let ?all = "generateStrategies tz today now rnd spot minDte maxDte"
  have each: "name s \<in> set catalogNames
          \<and> confidence s = jitter (baseConfidence (name s)) (rnd (confidenceDraw (name s))) 5
          \<and> 0 \<le> fl (rnd (confidenceDraw (name s)) * 5)
          \<and> fl (rnd (confidenceDraw (name s)) * 5) \<le> 5
          \<and> 58.5 \<le> confidence s \<and> confidence s \<le> 77.5
          \<and> (name s = ''Long Straddle'' \<longrightarrow> confidence s \<le> 63.5)"
    if "s \<in> set ?all" for s
  proof -
    let ?b = "baseConfidence (name s)" and ?u = "rnd (confidenceDraw (name s))"
    from that have c: "name s \<in> set catalogNames" "confidence s = jitter ?b ?u 5"
      using produced_confidence by blast+
    from assms have u: "0 \<le> ?u" "?u < 1" by simp_all
    note b = base_bounds [OF c(1)]
    from b have b1: "58.5 \<le> ?b" and b2: "?b \<le> 72.5" by simp_all
    have g: "0 \<le> fl (?u * 5) \<and> fl (?u * 5) \<le> 5
        \<and> 58.5 \<le> jitter ?b ?u 5 \<and> jitter ?b ?u 5 \<le> 72.5 + 5"
      using u b1 b2 by (rule jitter_bounds) (simp_all add: fl_score_ends)
    have ls: "jitter ?b ?u 5 \<le> 63.5" if "name s = ''Long Straddle''"
    proof -
      from that b have "?b \<le> 58.5" by simp
      with u b1 have "0 \<le> fl (?u * 5) \<and> fl (?u * 5) \<le> 5
        \<and> 58.5 \<le> jitter ?b ?u 5 \<and> jitter ?b ?u 5 \<le> 58.5 + 5"
        by (rule jitter_bounds) (simp_all add: fl_score_ends)
      then show ?thesis by simp
    qed
    from c g ls show ?thesis by simp
  qed
  then have all55: "\<forall>s \<in> set ?all. confidence s \<ge> 55" by fastforce
  then have flt: "filter (\<lambda>s. confidence s \<ge> 55) ?all = ?all" by simp
  have "handlerStrategies ?all ''moderate_aggressive'' m = handlerStrategies ?all ''aggressive'' m"
    by (simp add: handlerStrategies_def flt)
  with each flt show ?thesis by blast
qed

text \<open>C10 (amended), with every random value one half, at spot 100.\<close>

theorem confidence_ranges_witness:
  "(\<forall>k::nat. (0::real) \<le> 1 / 2 \<and> (1 / 2 ::real) < 1)
   \<and> list_all (\<lambda>s. 58.5 \<le> confidence s \<and> confidence s \<le> 77.5)
       (generateStrategies 0 1704110400000 1704110400000 (\<lambda>k. 1 / 2) 100 30 45)
   \<and> filter (\<lambda>s. confidence s \<ge> 55)
       (generateStrategies 0 1704110400000 1704110400000 (\<lambda>k. 1 / 2) 100 30 45)
     = generateStrategies 0 1704110400000 1704110400000 (\<lambda>k. 1 / 2) 100 30 45"
proof -
  have h: "\<forall>k::nat. (0::real) \<le> (\<lambda>k. 1 / 2) k \<and> (\<lambda>k. 1 / 2) k < (1::real)" by simp
  note t = confidence_ranges [OF h, where tz = 0 and today = 1704110400000
      and now = 1704110400000 and spot = 100 and minDte = 30 and maxDte = 45 and m = None]
  have a: "\<forall>s \<in> set (generateStrategies 0 1704110400000 1704110400000 (\<lambda>k. 1 / 2) 100 30 45).
      58.5 \<le> confidence s \<and> confidence s \<le> 77.5"
    using t [THEN conjunct1] by (intro ballI) (drule bspec, assumption, simp)
  have b: "filter (\<lambda>s. confidence s \<ge> 55)
       (generateStrategies 0 1704110400000 1704110400000 (\<lambda>k. 1 / 2) 100 30 45)
     = generateStrategies 0 1704110400000 1704110400000 (\<lambda>k. 1 / 2) 100 30 45"
    by (rule t [THEN conjunct2, THEN conjunct1])
  show ?thesis using a b by (simp add: list_all_iff)
qed

end
